theory Spec2Isabelle
  imports Main "HOL-Library.Multiset" "HOL-Library.AList"
begin

section \<open>Exceptions\<close>

text \<open>
  The exceptions the agent raises, catches or lets through. All of them are subclasses of
  Python's \<open>Exception\<close>; \<open>MessagingTimeout\<close> and \<open>RemoteError\<close> are also subclasses of
  oslo.messaging's \<open>MessagingException\<close>. \<open>RemoteError\<close> carries its \<open>exc_type\<close>.
\<close>

datatype exn =
    MessagingTimeout
  | RemoteError string
  | MessagingException
  | AbortSyncRouters
  | DvrHaRouterNotSupported string
  | RouterNotCompatibleWithAgent string
  | IndexError
  | KeyError string
  | Exception string

fun is_MessagingException :: "exn \<Rightarrow> bool" where
  "is_MessagingException MessagingTimeout = True"
| "is_MessagingException (RemoteError t) = True"
| "is_MessagingException MessagingException = True"
| "is_MessagingException e = False"

section \<open>Desired-state documents\<close>

text \<open>
  A port-forwarding dictionary. The four persisted keys are always present; the key
  \<open>outside_addr\<close> is written by the agent, so it may be missing (\<open>None\<close>).
\<close>

record portfwd =
  protocol :: string
  outside_addr :: "string option"
  outside_port :: int
  inside_addr :: string
  inside_port :: int

record fixed_ip =
  subnet_id :: string
  ip_address :: string

record port =
  port_id :: string
  network_id :: string
  fixed_ips :: "fixed_ip list"

record gw_info =
  info_network_id :: "string option"

text \<open>
  The router document. A field of type \<open>option\<close> is a key that may be missing from the
  dictionary: \<open>None\<close> is the missing key, which \<open>dict.get\<close> reads as Python's
  \<open>None\<close>. The keys read with \<open>router[...]\<close> (\<open>id\<close>, \<open>external_gateway_info\<close>) are
  always there.
\<close>

record router_doc =
  r_id :: string
  distributed :: "bool option"
  ha :: "bool option"
  external_gateway_info :: "gw_info option"
  gw_port :: "port option"
  ha_interface :: "port option"
  interfaces :: "port list"
  floatingips :: "string list"
  snat_interfaces :: "port list option"
  enable_snat :: "bool option"
  portforwardings :: "portfwd list option"

text \<open>Truthiness of \<open>d.get(k)\<close> for a boolean and for a string value.\<close>

fun truthy :: "bool option \<Rightarrow> bool" where
  "truthy (Some b) = b"
| "truthy None = False"

fun nonempty :: "string option \<Rightarrow> bool" where
  "nonempty (Some s) = (s \<noteq> [])"
| "nonempty None = False"

section \<open>Router runtime state\<close>

text \<open>
  The calls received by a router's \<open>iptables_manager\<close> (its \<open>ipv4['nat']\<close> table and
  \<open>apply\<close>), in the order they are made. The rule engine itself is an external
  collaborator: the model records what the agent asks of it.
\<close>

datatype ipt_call =
    Add_rule string string string
  | Remove_rule string string
  | Apply_rules

datatype variant = LegacyRouter | HaRouter | DvrRouter

record ri =
  router_id :: string
  router :: router_doc
  kind :: variant
  ri_portforwardings :: "portfwd list"
  iptables_manager :: "ipt_call list"
  ex_gw_port :: "port option"
  snat_ports :: "port list"
  ri_enable_snat :: "bool option"

definition is_ha :: "ri \<Rightarrow> bool" where
  "is_ha i = (kind i = HaRouter)"

definition get_ex_gw_port :: "ri \<Rightarrow> port option" where
  "get_ex_gw_port i = gw_port (router i)"

section \<open>Formatting\<close>

text \<open>Python's \<open>'%s' % n\<close> for an integer.\<close>

function digits :: "nat \<Rightarrow> string" where
  "digits n = (if n < 10 then [''0123456789'' ! n]
               else digits (n div 10) @ [''0123456789'' ! (n mod 10)])"
  by pat_completeness auto
termination
  by (relation "measure (\<lambda>n. n)") auto

declare digits.simps [simp del]

definition str_int :: "int \<Rightarrow> string" where
  "str_int i = (if i < 0 then CHR ''-'' # digits (nat (- i)) else digits (nat i))"

text \<open>
  The DNAT rule of \<open>_update_portforwardings\<close>: the format string applied to the
  dictionary; a missing \<open>outside_addr\<close> key is a \<open>KeyError\<close>.
\<close>

definition rule_in :: "portfwd \<Rightarrow> exn + string" where
  "rule_in portfwd =
     (case outside_addr portfwd of
        None \<Rightarrow> Inl (KeyError ''outside_addr'')
      | Some a \<Rightarrow>
          Inr (''-p '' @ protocol portfwd
               @ '' -d '' @ a @ '' --dport '' @ str_int (outside_port portfwd)
               @ '' -j DNAT --to '' @ inside_addr portfwd
               @ '':'' @ str_int (inside_port portfwd)))"

section \<open>Port-forward reconciliation\<close>

text \<open>
  Modelled from the spec: \<open>common_utils.diff_list_of_dict\<close> is imported from the
  neutron library and is not part of the agent's source. The spec describes it: both
  collections are unordered multisets of structurally equal records, \<open>adds = new - old\<close>
  and \<open>removes = old - new\<close> by full structural equality. \<open>minus_list xs ys\<close> removes one
  occurrence from \<open>xs\<close> for each element of \<open>ys\<close>.
\<close>

definition minus_list :: "'a list \<Rightarrow> 'a list \<Rightarrow> 'a list" where
  "minus_list xs ys = fold remove1 ys xs"

definition diff_list_of_dict :: "'a list \<Rightarrow> 'a list \<Rightarrow> 'a list \<times> 'a list" where
  "diff_list_of_dict old_list new_list =
     (minus_list new_list old_list, minus_list old_list new_list)"

definition update_portforwardings :: "ri \<Rightarrow> string \<Rightarrow> portfwd \<Rightarrow> (exn + unit) \<times> ri" where
  "update_portforwardings i operation portfwd =
     (case rule_in portfwd of
        Inl e \<Rightarrow> (Inl e, i)
      | Inr rule \<Rightarrow>
          if operation = ''create'' then
            (Inr (), i\<lparr>iptables_manager := iptables_manager i
                         @ [Add_rule ''PREROUTING'' rule ''portforwarding'']\<rparr>)
          else if operation = ''delete'' then
            (Inr (), i\<lparr>iptables_manager := iptables_manager i
                         @ [Remove_rule ''PREROUTING'' rule]\<rparr>)
          else (Inl (Exception ''should never be here''), i))"

text \<open>The loops \<open>for portfwd in ...: self._update_portforwardings(ri, op, portfwd)\<close>.\<close>

fun update_each :: "ri \<Rightarrow> string \<Rightarrow> portfwd list \<Rightarrow> (exn + unit) \<times> ri" where
  "update_each i operation [] = (Inr (), i)"
| "update_each i operation (p # ps) =
     (case update_portforwardings i operation p of
        (Inl e, i') \<Rightarrow> (Inl e, i')
      | (Inr u, i') \<Rightarrow> update_each i' operation ps)"

text \<open>
  The first loop of the gateway branch: every desired entry gets
  \<open>ex_gw_port.get('fixed_ips')[0].get('ip_address')\<close> as its \<open>outside_addr\<close>. The address
  is read anew for every entry; an empty \<open>fixed_ips\<close> is an \<open>IndexError\<close> at the first
  entry, before any entry has been changed.
\<close>

fun set_outside_addr :: "port \<Rightarrow> portfwd list \<Rightarrow> exn + portfwd list" where
  "set_outside_addr gw [] = Inr []"
| "set_outside_addr gw (p # ps) =
     (case fixed_ips gw of
        [] \<Rightarrow> Inl IndexError
      | f # fs \<Rightarrow>
          (case set_outside_addr gw ps of
             Inl e \<Rightarrow> Inl e
           | Inr ps' \<Rightarrow> Inr (p\<lparr>outside_addr := Some (ip_address f)\<rparr> # ps')))"

text \<open>
  \<open>ri.iptables_manager.apply()\<close>: the call is recorded; whether the rule engine fails is
  not decided by the agent, so it is a parameter.
\<close>

definition iptables_apply :: "(string \<Rightarrow> exn option) \<Rightarrow> ri \<Rightarrow> (exn + unit) \<times> ri" where
  "iptables_apply apply_raises i =
     ((case apply_raises (router_id i) of Some e \<Rightarrow> Inl e | None \<Rightarrow> Inr ()),
      i\<lparr>iptables_manager := iptables_manager i @ [Apply_rules]\<rparr>)"

text \<open>
  \<open>process_router_portforwardings\<close>. The entries of \<open>ri.router['portforwardings']\<close> are
  changed in place, so the document held by the router changes with them, and
  \<open>ri.portforwardings\<close> ends as that same list. The model keeps the stored collection as
  a value. Where the stored list and the document's list are one object (the same document
  reconciled again), the address written is the one written before, since the gateway port
  is read from that document, and the two views agree.
\<close>

definition process_router_portforwardings ::
  "(string \<Rightarrow> exn option) \<Rightarrow> ri \<Rightarrow> port option \<Rightarrow> (exn + unit) \<times> ri" where
  "process_router_portforwardings apply_raises i ex_gw =
     (case portforwardings (router i) of
        None \<Rightarrow> (Inr (), i)
      | Some doc_portfwds \<Rightarrow>
          (case ex_gw of
             Some gw \<Rightarrow>
               (case set_outside_addr gw doc_portfwds of
                  Inl e \<Rightarrow> (Inl e, i)
                | Inr new_portfwds \<Rightarrow>
                    (let i1 = i\<lparr>router := (router i)\<lparr>portforwardings := Some new_portfwds\<rparr>\<rparr>;
                         old_portfwds = ri_portforwardings i1;
                         (adds, removes) = diff_list_of_dict old_portfwds new_portfwds
                     in case update_each i1 ''create'' adds of
                          (Inl e, i2) \<Rightarrow> (Inl e, i2)
                        | (Inr u, i2) \<Rightarrow>
                            (case update_each i2 ''delete'' removes of
                               (Inl e, i3) \<Rightarrow> (Inl e, i3)
                             | (Inr u', i3) \<Rightarrow>
                                 iptables_apply apply_raises
                                   (i3\<lparr>ri_portforwardings := new_portfwds\<rparr>))))
           | None \<Rightarrow>
               (case update_each i ''delete'' (ri_portforwardings i) of
                  (Inl e, i1) \<Rightarrow> (Inl e, i1)
                | (Inr u, i1) \<Rightarrow>
                    iptables_apply apply_raises (i1\<lparr>ri_portforwardings := []\<rparr>))))"

text \<open>
  The text of the rule of an entry whose \<open>outside_addr\<close> is set: what
  \<open>_update_portforwardings\<close> hands to \<open>add_rule\<close> and \<open>remove_rule\<close>.
\<close>

definition dnat_rule :: "portfwd \<Rightarrow> string" where
  "dnat_rule p = (case rule_in p of Inr r \<Rightarrow> r | Inl e \<Rightarrow> [])"

section \<open>The agent and its collaborators\<close>

datatype priority = PRIORITY_RPC | PRIORITY_SYNC_ROUTERS_TASK

datatype action = DELETE_ROUTER

record RouterUpdate =
  u_id :: string
  u_priority :: priority
  u_action :: "action option"
  u_router :: "router_doc option"
  u_timestamp :: nat

datatype phase =
    before_router_added
  | after_router_added
  | before_router_updated
  | after_router_updated
  | before_router_removed
  | after_router_removed

text \<open>
  The calls the agent makes on objects that are not its own: the observers, the router
  objects' drivers, the namespace manager, the update queue and the lease \<open>rp\<close>. The
  agent's state keeps them in the order they are made.
\<close>

datatype event =
    Notify phase string
  | DaemonMonitor string
  | Ri_create string
  | Ri_delete string
  | Ri_initialize string
  | Ri_terminate string
  | Process_router_add string
  | Get_fip_ns string
  | Scan_fip_ports string
  | Process_internal_ports string
  | Process_external string
  | Routes_updated string
  | Enable_keepalived string
  | Process_services_sync
  | Namespaces_enter
  | Namespaces_exit
  | Keep_router string
  | Queue_add RouterUpdate
  | Fetched_and_processed string nat

record conf =
  external_network_bridge :: string
  gateway_external_network_id :: string
  use_namespaces :: bool
  conf_router_id :: string
  handle_internal_only_routers :: bool

text \<open>
  What the agent does not decide: whether a call on a collaborator raises, what the
  controller answers, whether a device exists, what the clock shows at its n-th reading.
\<close>

record env =
  raises :: "event \<Rightarrow> exn option"
  apply_raises :: "string \<Rightarrow> exn option"
  device_exists :: "string \<Rightarrow> bool"
  get_routers :: "string list option \<Rightarrow> exn + router_doc list"
  get_external_network_id :: "exn + string"
  clock :: "nat \<Rightarrow> nat"

text \<open>
  \<open>router_info\<close> is the dictionary from router id to runtime object, as an association
  list; \<open>trace\<close> the calls made so far; \<open>clock_reads\<close> counts the readings of the clock.
\<close>

record agent =
  router_info :: "(string \<times> ri) list"
  fullsync :: bool
  target_ex_net_id :: "string option"
  trace :: "event list"
  clock_reads :: nat

definition utcnow :: "env \<Rightarrow> agent \<Rightarrow> nat \<times> agent" where
  "utcnow en s = (clock en (clock_reads s), s\<lparr>clock_reads := Suc (clock_reads s)\<rparr>)"

definition call :: "env \<Rightarrow> event \<Rightarrow> agent \<Rightarrow> (exn + unit) \<times> agent" where
  "call en e s =
     ((case raises en e of Some x \<Rightarrow> Inl x | None \<Rightarrow> Inr ()),
      s\<lparr>trace := trace s @ [e]\<rparr>)"

text \<open>Statements in sequence: an exception ends the sequence, the state changes made stay.\<close>

definition and_then ::
  "(exn + unit) \<times> agent \<Rightarrow> (agent \<Rightarrow> (exn + unit) \<times> agent) \<Rightarrow> (exn + unit) \<times> agent" where
  "and_then r f = (case r of (Inl e, s) \<Rightarrow> (Inl e, s) | (Inr u, s) \<Rightarrow> f s)"

fun calls :: "env \<Rightarrow> event list \<Rightarrow> agent \<Rightarrow> (exn + unit) \<times> agent" where
  "calls en [] s = (Inr (), s)"
| "calls en (e # es) s = and_then (call en e s) (calls en es)"

definition store :: "string \<Rightarrow> ri \<Rightarrow> agent \<Rightarrow> agent" where
  "store rid i s = s\<lparr>router_info := AList.update rid i (router_info s)\<rparr>"

section \<open>Startup: the list of service plugins\<close>

text \<open>
  The loop of \<open>L3NATAgent.__init__\<close>. \<open>rpc k\<close> is the outcome of the k-th call of
  \<open>get_service_plugin_list\<close> (counted from 0). The result is the value left in
  \<open>neutron_service_plugins\<close> (\<open>None\<close> after a \<open>RemoteError\<close>) or the exception that
  leaves the constructor, with the number of calls made.
\<close>

function service_plugins_loop ::
  "(nat \<Rightarrow> exn + string list) \<Rightarrow> int \<Rightarrow> nat \<Rightarrow> (exn + string list option) \<times> nat" where
  "service_plugins_loop rpc retry_count n =
     (let retry_count' = retry_count - 1 in
      case rpc n of
        Inr plugins \<Rightarrow> (Inr (Some plugins), Suc n)
      | Inl (RemoteError t) \<Rightarrow> (Inr None, Suc n)
      | Inl MessagingTimeout \<Rightarrow>
          if retry_count' > 0 then service_plugins_loop rpc retry_count' (Suc n)
          else (Inl MessagingTimeout, Suc n)
      | Inl e \<Rightarrow> (Inl e, Suc n))"
  by pat_completeness auto
termination
  by (relation "measure (\<lambda>(rpc, retry_count, n). nat retry_count)") auto

declare service_plugins_loop.simps [simp del]

definition neutron_service_plugins ::
  "(nat \<Rightarrow> exn + string list) \<Rightarrow> (exn + string list option) \<times> nat" where
  "neutron_service_plugins rpc = service_plugins_loop rpc 5 0"

text \<open>What one answer other than a timeout leaves behind: the branches of the loop that end it.\<close>

definition plugins_outcome :: "exn + string list \<Rightarrow> exn + string list option" where
  "plugins_outcome r =
     (case r of Inr plugins \<Rightarrow> Inr (Some plugins)
      | Inl (RemoteError t) \<Rightarrow> Inr None
      | Inl e \<Rightarrow> Inl e)"

section \<open>Creating, reconciling and removing a router\<close>

text \<open>
  The constructors of the runtime variants are outside the agent; a new runtime object has
  nothing applied yet.
\<close>

definition new_ri :: "variant \<Rightarrow> string \<Rightarrow> router_doc \<Rightarrow> ri" where
  "new_ri k rid r =
     \<lparr>router_id = rid, router = r, kind = k, ri_portforwardings = [],
      iptables_manager = [], ex_gw_port = None, snat_ports = [], ri_enable_snat = None\<rparr>"

definition create_router :: "string \<Rightarrow> router_doc \<Rightarrow> exn + ri" where
  "create_router rid r =
     (if truthy (distributed r) \<and> truthy (ha r) then Inl (DvrHaRouterNotSupported rid)
      else if truthy (distributed r) then Inr (new_ri DvrRouter rid r)
      else if truthy (ha r) then Inr (new_ri HaRouter rid r)
      else Inr (new_ri LegacyRouter rid r))"

definition router_added :: "env \<Rightarrow> string \<Rightarrow> router_doc \<Rightarrow> agent \<Rightarrow> (exn + unit) \<times> agent" where
  "router_added en rid r s =
     (case create_router rid r of
        Inl e \<Rightarrow> (Inl e, s)
      | Inr i \<Rightarrow>
          and_then (calls en [DaemonMonitor (r_id r), Notify before_router_added rid] s)
            (\<lambda>s. and_then (calls en [Ri_create rid, Process_router_add rid] (store rid i s))
              (\<lambda>s. if is_ha i then call en (Ri_initialize rid) s else (Inr (), s))))"

text \<open>
  \<open>process_router\<close> works on the runtime object it is given; the caller holds that object
  in \<open>router_info\<close>, so the changes are written back there, also when the pass raises.
\<close>

definition process_router :: "env \<Rightarrow> ri \<Rightarrow> agent \<Rightarrow> (exn + unit) \<times> ri \<times> agent" where
  "process_router en i0 s0 =
     (let i = (if distributed (router i0) = None
               then i0\<lparr>router := (router i0)\<lparr>distributed := Some False\<rparr>\<rparr> else i0);
          rid = router_id i;
          ex_gw = get_ex_gw_port i
      in case and_then
                (case ex_gw of
                   Some gw \<Rightarrow>
                     if truthy (distributed (router i))
                     then calls en [Get_fip_ns (network_id gw), Scan_fip_ports rid] s0
                     else (Inr (), s0)
                 | None \<Rightarrow> (Inr (), s0))
                (calls en [Process_internal_ports rid, Process_external rid, Routes_updated rid])
         of (Inl e, s) \<Rightarrow> (Inl e, i, s)
          | (Inr u, s) \<Rightarrow>
              (case process_router_portforwardings (apply_raises en) i ex_gw of
                 (Inl e, i') \<Rightarrow> (Inl e, i', s)
               | (Inr u', i') \<Rightarrow>
                   (case (if is_ha i' \<and> ha_interface (router i') \<noteq> None
                          then call en (Enable_keepalived rid) s else (Inr (), s))
                    of (Inl e, s') \<Rightarrow> (Inl e, i', s')
                     | (Inr u'', s') \<Rightarrow>
                         (Inr (),
                          i'\<lparr>ex_gw_port := ex_gw,
                             snat_ports := (case snat_interfaces (router i') of
                                              Some ps \<Rightarrow> ps | None \<Rightarrow> []),
                             ri_enable_snat := enable_snat (router i')\<rparr>,
                          s'))))"

definition router_removed :: "env \<Rightarrow> string \<Rightarrow> agent \<Rightarrow> (exn + unit) \<times> agent" where
  "router_removed en rid s =
     (case map_of (router_info s) rid of
        None \<Rightarrow> (Inr (), s)
      | Some i \<Rightarrow>
          and_then (call en (Notify before_router_removed rid) s)
            (\<lambda>s. and_then (if is_ha i then call en (Ri_terminate rid) s else (Inr (), s))
              (\<lambda>s. let i1 = i\<lparr>router := (router i)\<lparr>gw_port := None, interfaces := [],
                                                    floatingips := []\<rparr>\<rparr>
                    in case process_router en i1 (store rid i1 s) of
                         (Inl e, i2, s') \<Rightarrow> (Inl e, store rid i2 s')
                       | (Inr u, i2, s') \<Rightarrow>
                           calls en [Ri_delete rid, Notify after_router_removed rid]
                             (s'\<lparr>router_info := AList.delete rid (router_info s')\<rparr>))))"

section \<open>Compatibility check, creation path and update path\<close>

definition fetch_external_net_id ::
  "conf \<Rightarrow> env \<Rightarrow> bool \<Rightarrow> agent \<Rightarrow> (exn + string option) \<times> agent" where
  "fetch_external_net_id cf en force s =
     (if gateway_external_network_id cf \<noteq> [] then (Inr (Some (gateway_external_network_id cf)), s)
      else if external_network_bridge cf = [] then (Inr None, s)
      else if \<not> force \<and> nonempty (target_ex_net_id s) then (Inr (target_ex_net_id s), s)
      else (case get_external_network_id en of
              Inr n \<Rightarrow> (Inr (Some n), s\<lparr>target_ex_net_id := Some n\<rparr>)
            | Inl (RemoteError t) \<Rightarrow>
                if t = ''TooManyExternalNetworks''
                then (Inl (Exception ''gateway_external_network_id must be configured''), s)
                else (Inl (RemoteError t), s)
            | Inl e \<Rightarrow> (Inl e, s)))"

definition process_added_router :: "env \<Rightarrow> router_doc \<Rightarrow> agent \<Rightarrow> (exn + unit) \<times> agent" where
  "process_added_router en r s =
     and_then (router_added en (r_id r) r s)
       (\<lambda>s. case map_of (router_info s) (r_id r) of
               None \<Rightarrow> (Inl (KeyError (r_id r)), s)
             | Some i \<Rightarrow>
                 (let i1 = i\<lparr>router := r\<rparr>
                  in case process_router en i1 (store (r_id r) i1 s) of
                       (res, i2, s') \<Rightarrow>
                         and_then (res, store (r_id r) i2 s')
                           (call en (Notify after_router_added (r_id r)))))"

definition process_updated_router :: "env \<Rightarrow> router_doc \<Rightarrow> agent \<Rightarrow> (exn + unit) \<times> agent" where
  "process_updated_router en r s =
     (case map_of (router_info s) (r_id r) of
        None \<Rightarrow> (Inl (KeyError (r_id r)), s)
      | Some i \<Rightarrow>
          (let i1 = i\<lparr>router := r\<rparr>
           in and_then (call en (Notify before_router_updated (r_id r)) (store (r_id r) i1 s))
                (\<lambda>s. case process_router en i1 s of
                        (res, i2, s') \<Rightarrow>
                          and_then (res, store (r_id r) i2 s')
                            (call en (Notify after_router_updated (r_id r))))))"

definition ex_net_id_of :: "router_doc \<Rightarrow> string option" where
  "ex_net_id_of r =
     (case external_gateway_info r of None \<Rightarrow> None | Some info \<Rightarrow> info_network_id info)"

text \<open>
  The last statement of \<open>_process_router_if_compatible\<close>: a router id that is not in
  \<open>router_info\<close> goes to the creation path, a known one to the update path.
\<close>

definition add_or_update :: "env \<Rightarrow> router_doc \<Rightarrow> agent \<Rightarrow> (exn + unit) \<times> agent" where
  "add_or_update en r s =
     (if map_of (router_info s) (r_id r) = None then process_added_router en r s
      else process_updated_router en r s)"

definition process_router_if_compatible ::
  "conf \<Rightarrow> env \<Rightarrow> router_doc \<Rightarrow> agent \<Rightarrow> (exn + unit) \<times> agent" where
  "process_router_if_compatible cf en r s =
     (if external_network_bridge cf \<noteq> [] \<and> \<not> device_exists en (external_network_bridge cf)
      then (Inr (), s)
      else if \<not> use_namespaces cf \<and> r_id r \<noteq> conf_router_id cf
      then (Inl (RouterNotCompatibleWithAgent (r_id r)), s)
      else if \<not> nonempty (ex_net_id_of r) \<and> \<not> handle_internal_only_routers cf
      then (Inl (RouterNotCompatibleWithAgent (r_id r)), s)
      else (case fetch_external_net_id cf en False s of
              (Inl e, s1) \<Rightarrow> (Inl e, s1)
            | (Inr target, s1) \<Rightarrow>
                if nonempty target \<and> nonempty (ex_net_id_of r) \<and> ex_net_id_of r \<noteq> target
                then (case fetch_external_net_id cf en True s1 of
                        (Inl e, s2) \<Rightarrow> (Inl e, s2)
                      | (Inr target', s2) \<Rightarrow>
                          if ex_net_id_of r \<noteq> target'
                          then (Inl (RouterNotCompatibleWithAgent (r_id r)), s2)
                          else add_or_update en r s2)
                else add_or_update en r s1))"

section \<open>The worker loop\<close>

text \<open>
  One iteration of the loop of \<open>_process_router_update\<close>, after the desired state has been
  fetched if it had to be. \<open>Inr\<close> is an iteration that ends, by \<open>continue\<close> or at the end
  of the body; \<open>Inl\<close> is an exception that leaves the loop.
\<close>

definition process_fetched ::
  "conf \<Rightarrow> env \<Rightarrow> RouterUpdate \<Rightarrow> router_doc option \<Rightarrow> agent \<Rightarrow> (exn + unit) \<times> agent" where
  "process_fetched cf en update rt s =
     (case rt of
        None \<Rightarrow>
          (case router_removed en (u_id update) s of
             (Inl e, s') \<Rightarrow> (Inr (), s'\<lparr>fullsync := True\<rparr>)
           | (Inr u, s') \<Rightarrow> (Inr (), s'))
      | Some r \<Rightarrow>
          (case process_router_if_compatible cf en r s of
             (Inl (RouterNotCompatibleWithAgent m), s') \<Rightarrow>
               and_then
                 (if map_of (router_info s') (r_id r) \<noteq> None
                  then router_removed en (r_id r) s' else (Inr (), s'))
                 (call en (Fetched_and_processed (u_id update) (u_timestamp update)))
           | (Inl e, s') \<Rightarrow> (Inr (), s'\<lparr>fullsync := True\<rparr>)
           | (Inr u, s') \<Rightarrow>
               call en (Fetched_and_processed (u_id update) (u_timestamp update)) s'))"

definition process_one :: "conf \<Rightarrow> env \<Rightarrow> RouterUpdate \<Rightarrow> agent \<Rightarrow> (exn + unit) \<times> agent" where
  "process_one cf en update s =
     (if u_action update \<noteq> Some DELETE_ROUTER \<and> u_router update = None then
        (case utcnow en s of
           (now, s1) \<Rightarrow>
             (case get_routers en (Some [u_id update]) of
                Inl e \<Rightarrow> (Inr (), s1\<lparr>fullsync := True\<rparr>)
              | Inr routers \<Rightarrow>
                  process_fetched cf en (update\<lparr>u_timestamp := now\<rparr>)
                    (case routers of [] \<Rightarrow> None | r # rs \<Rightarrow> Some r) s1))
      else process_fetched cf en update (u_router update) s)"

text \<open>
  \<open>_process_router_update\<close>: the updates are those that
  \<open>each_update_to_next_router\<close> yields, in order.
\<close>

fun process_router_update ::
  "conf \<Rightarrow> env \<Rightarrow> RouterUpdate list \<Rightarrow> agent \<Rightarrow> (exn + unit) \<times> agent" where
  "process_router_update cf en [] s = (Inr (), s)"
| "process_router_update cf en (update # rest) s =
     and_then (process_one cf en update s) (process_router_update cf en rest)"

section \<open>Full sync\<close>

text \<open>The two kinds of update the full sync builds, with the timestamp of the pass.\<close>

definition sync_update :: "nat \<Rightarrow> router_doc \<Rightarrow> RouterUpdate" where
  "sync_update timestamp r =
     \<lparr>u_id = r_id r, u_priority = PRIORITY_SYNC_ROUTERS_TASK, u_action = None,
      u_router = Some r, u_timestamp = timestamp\<rparr>"

definition delete_update :: "nat \<Rightarrow> string \<Rightarrow> RouterUpdate" where
  "delete_update timestamp rid =
     \<lparr>u_id = rid, u_priority = PRIORITY_SYNC_ROUTERS_TASK, u_action = Some DELETE_ROUTER,
      u_router = None, u_timestamp = timestamp\<rparr>"

fun enqueue_routers :: "env \<Rightarrow> nat \<Rightarrow> router_doc list \<Rightarrow> agent \<Rightarrow> (exn + unit) \<times> agent" where
  "enqueue_routers en timestamp [] s = (Inr (), s)"
| "enqueue_routers en timestamp (r # rs) s =
     and_then (calls en [Keep_router (r_id r), Queue_add (sync_update timestamp r)] s)
       (enqueue_routers en timestamp rs)"

fun enqueue_deletes :: "env \<Rightarrow> nat \<Rightarrow> string list \<Rightarrow> agent \<Rightarrow> (exn + unit) \<times> agent" where
  "enqueue_deletes en timestamp [] s = (Inr (), s)"
| "enqueue_deletes en timestamp (rid # rids) s =
     and_then (calls en [Keep_router rid, Queue_add (delete_update timestamp rid)] s)
       (enqueue_deletes en timestamp rids)"

definition fetch_routers :: "conf \<Rightarrow> env \<Rightarrow> exn + router_doc list" where
  "fetch_routers cf en =
     (if use_namespaces cf then get_routers en None
      else get_routers en (Some [conf_router_id cf]))"

text \<open>
  \<open>fetch_and_sync_all_routers\<close>. The sets of ids are lists without repetition; the order in
  which Python walks a set is not fixed, the model walks it in the order of the list.
\<close>

definition fetch_and_sync_all_routers :: "conf \<Rightarrow> env \<Rightarrow> agent \<Rightarrow> (exn + unit) \<times> agent" where
  "fetch_and_sync_all_routers cf en s0 =
     (let prev_router_ids = remdups (map fst (router_info s0))
      in case utcnow en s0 of
           (timestamp, s) \<Rightarrow>
             (case fetch_routers cf en of
                Inl e \<Rightarrow>
                  if is_MessagingException e then (Inl AbortSyncRouters, s) else (Inl e, s)
              | Inr routers \<Rightarrow>
                  and_then (enqueue_routers en timestamp routers s)
                    (\<lambda>s. let curr_router_ids = remdups (map r_id routers)
                          in enqueue_deletes en timestamp
                               (filter (\<lambda>rid. rid \<notin> set curr_router_ids) prev_router_ids)
                               (s\<lparr>fullsync := False\<rparr>))))"

text \<open>
  \<open>periodic_sync_routers_task\<close>. The namespace manager is entered before the fetch and
  left after it, whether the body raised or not; an exception of the body is not
  swallowed by it.
\<close>

definition periodic_sync_routers_task :: "conf \<Rightarrow> env \<Rightarrow> agent \<Rightarrow> (exn + unit) \<times> agent" where
  "periodic_sync_routers_task cf en s =
     and_then (call en Process_services_sync s)
       (\<lambda>s. if \<not> fullsync s then (Inr (), s)
             else (case and_then (call en Namespaces_enter s)
                          (\<lambda>s. case fetch_and_sync_all_routers cf en s of
                                  (Inl e, s') \<Rightarrow>
                                    (case call en Namespaces_exit s' of
                                       (Inl x, s'') \<Rightarrow> (Inl x, s'')
                                     | (Inr u, s'') \<Rightarrow> (Inl e, s''))
                                | (Inr u, s') \<Rightarrow> call en Namespaces_exit s')
                   of (Inl AbortSyncRouters, s') \<Rightarrow> (Inr (), s'\<lparr>fullsync := True\<rparr>)
                    | res \<Rightarrow> res))"

section \<open>Example data\<close>

text \<open>
  A router with an external gateway at \<open>172.24.4.2\<close>, one applied port-forward rule and one
  desired rule for the same outside port and another inside address.
\<close>

definition pf_old :: portfwd where
  "pf_old = \<lparr>protocol = ''tcp'', outside_addr = Some ''172.24.4.2'', outside_port = 80,
             inside_addr = ''10.0.0.5'', inside_port = 8080\<rparr>"

definition pf_new :: portfwd where
  "pf_new = \<lparr>protocol = ''tcp'', outside_addr = None, outside_port = 80,
             inside_addr = ''10.0.0.6'', inside_port = 8080\<rparr>"

definition gw1 :: port where
  "gw1 = \<lparr>port_id = ''gw-1'', network_id = ''ext-net'',
           fixed_ips = [\<lparr>subnet_id = ''sub-1'', ip_address = ''172.24.4.2''\<rparr>]\<rparr>"

definition doc1 :: router_doc where
  "doc1 = \<lparr>r_id = ''r1'', distributed = Some False, ha = Some False,
            external_gateway_info = Some \<lparr>info_network_id = Some ''ext-net''\<rparr>,
            gw_port = Some gw1, ha_interface = None, interfaces = [], floatingips = [],
            snat_interfaces = None, enable_snat = Some True,
            portforwardings = Some [pf_new]\<rparr>"

definition ri1 :: ri where
  "ri1 = \<lparr>router_id = ''r1'', router = doc1, kind = LegacyRouter,
           ri_portforwardings = [pf_old], iptables_manager = [],
           ex_gw_port = Some gw1, snat_ports = [], ri_enable_snat = Some True\<rparr>"


definition conf1 :: conf where
  "conf1 = \<lparr>external_network_bridge = [], gateway_external_network_id = [],
            use_namespaces = True, conf_router_id = [], handle_internal_only_routers = False\<rparr>"

text \<open>A world in which no call raises and the controller knows no router.\<close>

definition env1 :: env where
  "env1 = \<lparr>raises = (\<lambda>e. None), apply_raises = (\<lambda>r. None), device_exists = (\<lambda>d. False),
           get_routers = (\<lambda>ids. Inr []), get_external_network_id = Inr ''ext-net'',
           clock = (\<lambda>n. 100 + n)\<rparr>"

text \<open>The same world, except that \<open>process_external\<close> fails for router r1.\<close>

definition env_fail :: env where
  "env_fail = env1\<lparr>raises := (\<lambda>e. if e = Process_external ''r1''
                                    then Some (Exception ''driver failure'') else None)\<rparr>"

definition agent1 :: agent where
  "agent1 = \<lparr>router_info = [(''r1'', ri1)], fullsync = False, target_ex_net_id = None,
             trace = [], clock_reads = 0\<rparr>"

definition delete_r1 :: RouterUpdate where
  "delete_r1 = \<lparr>u_id = ''r1'', u_priority = PRIORITY_RPC, u_action = Some DELETE_ROUTER,
                u_router = None, u_timestamp = 7\<rparr>"

definition fetch_r1 :: RouterUpdate where
  "fetch_r1 = \<lparr>u_id = ''r1'', u_priority = PRIORITY_RPC, u_action = None,
               u_router = None, u_timestamp = 7\<rparr>"

definition update_r1 :: RouterUpdate where
  "update_r1 = \<lparr>u_id = ''r1'', u_priority = PRIORITY_SYNC_ROUTERS_TASK, u_action = None,
                u_router = Some doc1, u_timestamp = 7\<rparr>"

definition incompatible_r1 :: RouterUpdate where
  "incompatible_r1 = \<lparr>u_id = ''r1'', u_priority = PRIORITY_RPC, u_action = None,
       u_router = Some (doc1\<lparr>external_gateway_info := None, gw_port := None\<rparr>),
       u_timestamp = 7\<rparr>"

definition delete_r3 :: RouterUpdate where
  "delete_r3 = \<lparr>u_id = ''r3'', u_priority = PRIORITY_RPC, u_action = Some DELETE_ROUTER,
                u_router = None, u_timestamp = 8\<rparr>"

text \<open>The calls of a removal of r1 that completes.\<close>

definition removed_r1_trace :: "event list" where
  "removed_r1_trace =
     [Notify before_router_removed ''r1'', Process_internal_ports ''r1'',
      Process_external ''r1'', Routes_updated ''r1'', Ri_delete ''r1'',
      Notify after_router_removed ''r1'']"

section \<open>Reading the trace\<close>

text \<open>The DeleteRouter updates among the calls, in the order they were put on the queue.\<close>

fun delete_updates :: "event list \<Rightarrow> RouterUpdate list" where
  "delete_updates [] = []"
| "delete_updates (Queue_add u # es) =
     (if u_action u = Some DELETE_ROUTER then u # delete_updates es else delete_updates es)"
| "delete_updates (e # es) = delete_updates es"

text \<open>
  The calls a full sync makes for the fetched routers and for the vanished ones when no call
  raises, and the ids that were known before the fetch and are not in the fetched list.
\<close>

definition sync_events :: "nat \<Rightarrow> router_doc list \<Rightarrow> event list" where
  "sync_events ts rs = concat (map (\<lambda>r. [Keep_router (r_id r), Queue_add (sync_update ts r)]) rs)"

definition delete_events :: "nat \<Rightarrow> string list \<Rightarrow> event list" where
  "delete_events ts rids =
     concat (map (\<lambda>rid. [Keep_router rid, Queue_add (delete_update ts rid)]) rids)"

definition gone_ids :: "agent \<Rightarrow> router_doc list \<Rightarrow> string list" where
  "gone_ids s routers =
     filter (\<lambda>rid. rid \<notin> set (remdups (map r_id routers))) (remdups (map fst (router_info s)))"

section \<open>Properties of port-forward reconciliation\<close>

lemma upd_delete:
  "outside_addr p = Some a \<Longrightarrow> update_portforwardings i ''delete'' p =
      (Inr (), i\<lparr>iptables_manager := iptables_manager i @ [Remove_rule ''PREROUTING'' (dnat_rule p)]\<rparr>)"
  by (simp add: update_portforwardings_def rule_in_def dnat_rule_def)

lemma update_each_delete:
  "\<forall>p\<in>set ps. outside_addr p \<noteq> None \<Longrightarrow>
   update_each i ''delete'' ps =
     (Inr (), i\<lparr>iptables_manager := iptables_manager i
                  @ map (\<lambda>p. Remove_rule ''PREROUTING'' (dnat_rule p)) ps\<rparr>)"
proof (induction ps arbitrary: i)
  case Nil
  show ?case by simp
next
  case (Cons p ps)
  from Cons.prems obtain a where a: "outside_addr p = Some a" by auto
  from Cons.prems have rest: "\<forall>p\<in>set ps. outside_addr p \<noteq> None" by simp
  have "update_each i ''delete'' (p # ps) =
        update_each (i\<lparr>iptables_manager := iptables_manager i @ [Remove_rule ''PREROUTING'' (dnat_rule p)]\<rparr>) ''delete'' ps"
    by (simp only: update_each.simps upd_delete[OF a] prod.case sum.case)
  also have "\<dots> = (Inr (), i\<lparr>iptables_manager := iptables_manager i
                  @ map (\<lambda>p. Remove_rule ''PREROUTING'' (dnat_rule p)) (p # ps)\<rparr>)"
    by (simp only: Cons.IH[OF rest]) simp
  finally show ?case .
qed

lemma set_outside_addr_Cons:
  "fixed_ips gw = f # fs \<Longrightarrow>
   set_outside_addr gw ps = Inr (map (\<lambda>p. p\<lparr>outside_addr := Some (ip_address f)\<rparr>) ps)"
  by (induction ps) simp_all

lemma set_outside_addr_Nil: "set_outside_addr gw [] = Inr []"
  by simp

lemma set_outside_addr_empty_ips:
  "fixed_ips gw = [] \<Longrightarrow> set_outside_addr gw (p # ps) = Inl IndexError"
  by simp

lemma set_outside_addr_cases:
  "set_outside_addr gw ps = Inr ps' \<Longrightarrow>
   (ps = [] \<and> ps' = []) \<or>
   (\<exists>f fs. fixed_ips gw = f # fs \<and> ps' = map (\<lambda>p. p\<lparr>outside_addr := Some (ip_address f)\<rparr>) ps)"
proof (cases "fixed_ips gw")
  case Nil
  assume r: "set_outside_addr gw ps = Inr ps'"
  show ?thesis
  proof (cases ps)
    case Nil
    with r show ?thesis by simp
  next
    case (Cons p qs)
    with r \<open>fixed_ips gw = []\<close> show ?thesis by simp
  qed
next
  case (Cons f fs)
  assume r: "set_outside_addr gw ps = Inr ps'"
  with set_outside_addr_Cons[OF Cons, of ps] show ?thesis using Cons by simp
qed

lemma set_outside_addr_populated:
  assumes "set_outside_addr gw ps = Inr ps'"
  shows "\<forall>p\<in>set ps'. outside_addr p \<noteq> None"
  using set_outside_addr_cases[OF assms] by auto

lemma set_outside_addr_idem:
  assumes "set_outside_addr gw ps = Inr ps'"
  shows "set_outside_addr gw ps' = Inr ps'"
proof -
  from set_outside_addr_cases[OF assms] show ?thesis
  proof
    assume "ps = [] \<and> ps' = []"
    then show ?thesis by simp
  next
    assume "\<exists>f fs. fixed_ips gw = f # fs \<and> ps' = map (\<lambda>p. p\<lparr>outside_addr := Some (ip_address f)\<rparr>) ps"
    then obtain f fs where f: "fixed_ips gw = f # fs"
      and p: "ps' = map (\<lambda>p. p\<lparr>outside_addr := Some (ip_address f)\<rparr>) ps" by blast
    show ?thesis
      by (simp add: set_outside_addr_Cons[OF f] p comp_def)
  qed
qed

lemma upd_create:
  "outside_addr p = Some a \<Longrightarrow> update_portforwardings i ''create'' p =
      (Inr (), i\<lparr>iptables_manager := iptables_manager i @ [Add_rule ''PREROUTING'' (dnat_rule p) ''portforwarding'']\<rparr>)"
  by (simp add: update_portforwardings_def rule_in_def dnat_rule_def)

lemma update_each_create:
  "\<forall>p\<in>set ps. outside_addr p \<noteq> None \<Longrightarrow>
   update_each i ''create'' ps =
     (Inr (), i\<lparr>iptables_manager := iptables_manager i
                  @ map (\<lambda>p. Add_rule ''PREROUTING'' (dnat_rule p) ''portforwarding'') ps\<rparr>)"
proof (induction ps arbitrary: i)
  case Nil
  show ?case by simp
next
  case (Cons p ps)
  from Cons.prems obtain a where a: "outside_addr p = Some a" by auto
  from Cons.prems have rest: "\<forall>p\<in>set ps. outside_addr p \<noteq> None" by simp
  have "update_each i ''create'' (p # ps) =
        update_each (i\<lparr>iptables_manager := iptables_manager i @ [Add_rule ''PREROUTING'' (dnat_rule p) ''portforwarding'']\<rparr>) ''create'' ps"
    by (simp only: update_each.simps upd_create[OF a] prod.case sum.case)
  also have "\<dots> = (Inr (), i\<lparr>iptables_manager := iptables_manager i
                  @ map (\<lambda>p. Add_rule ''PREROUTING'' (dnat_rule p) ''portforwarding'') (p # ps)\<rparr>)"
    by (simp only: Cons.IH[OF rest]) simp
  finally show ?case .
qed

lemma mset_minus_list: "mset (minus_list xs ys) = mset xs - mset ys"
  unfolding minus_list_def
  by (induction ys arbitrary: xs) (simp_all add: diff_diff_add)

lemma minus_list_self: "minus_list xs xs = []"
proof -
  have "mset (minus_list xs xs) = {#}" by (simp add: mset_minus_list)
  then show ?thesis by simp
qed

lemma set_minus_list: "set (minus_list xs ys) \<subseteq> set xs"
proof -
  have "mset (minus_list xs ys) \<subseteq># mset xs" by (simp add: mset_minus_list)
  then show ?thesis by (metis set_mset_mono set_mset_mset)
qed

lemma diff_list_of_dict_same: "diff_list_of_dict xs xs = ([], [])"
  by (simp add: diff_list_of_dict_def minus_list_self)

lemma no_gateway_pass:
  assumes decl: "portforwardings (router i) = Some new"
    and old: "\<forall>p\<in>set (ri_portforwardings i). outside_addr p \<noteq> None"
  shows "process_router_portforwardings ar i None =
     ((case ar (router_id i) of Some e \<Rightarrow> Inl e | None \<Rightarrow> Inr ()),
      i\<lparr>ri_portforwardings := [],
        iptables_manager := iptables_manager i
          @ map (\<lambda>p. Remove_rule ''PREROUTING'' (dnat_rule p)) (ri_portforwardings i)
          @ [Apply_rules]\<rparr>)"
  by (simp add: process_router_portforwardings_def decl update_each_delete[OF old]
      iptables_apply_def)

lemma gateway_pass:
  assumes decl: "portforwardings (router i) = Some new"
    and pop: "set_outside_addr gw new = Inr desired"
    and old: "\<forall>p\<in>set (ri_portforwardings i). outside_addr p \<noteq> None"
  shows "process_router_portforwardings ar i (Some gw) =
     ((case ar (router_id i) of Some e \<Rightarrow> Inl e | None \<Rightarrow> Inr ()),
      i\<lparr>router := (router i)\<lparr>portforwardings := Some desired\<rparr>,
        ri_portforwardings := desired,
        iptables_manager := iptables_manager i
          @ map (\<lambda>p. Add_rule ''PREROUTING'' (dnat_rule p) ''portforwarding'')
              (minus_list desired (ri_portforwardings i))
          @ map (\<lambda>p. Remove_rule ''PREROUTING'' (dnat_rule p))
              (minus_list (ri_portforwardings i) desired)
          @ [Apply_rules]\<rparr>)"
proof -
  have adds: "\<forall>p\<in>set (minus_list desired (ri_portforwardings i)). outside_addr p \<noteq> None"
    using set_outside_addr_populated[OF pop] set_minus_list[of desired "ri_portforwardings i"]
    by blast
  have removes: "\<forall>p\<in>set (minus_list (ri_portforwardings i) desired). outside_addr p \<noteq> None"
    using old set_minus_list[of "ri_portforwardings i" desired] by blast
  show ?thesis
    by (simp add: process_router_portforwardings_def decl pop diff_list_of_dict_def
        update_each_create[OF adds] update_each_delete[OF removes] iptables_apply_def Let_def)
qed

lemma digits_8: "digits 8 = ''8''"
  by (simp add: digits.simps[of 8])

lemma digits_80: "digits 80 = ''80''"
  by (simp add: digits.simps[of 80] digits_8)

lemma digits_808: "digits 808 = ''808''"
  by (simp add: digits.simps[of 808] digits_80)

lemma digits_8080: "digits 8080 = ''8080''"
  by (simp add: digits.simps[of 8080] digits_808)

lemma dnat_rule_old: "dnat_rule pf_old = ''-p tcp -d 172.24.4.2 --dport 80 -j DNAT --to 10.0.0.5:8080''"
  by (simp add: dnat_rule_def rule_in_def str_int_def pf_old_def digits_80 digits_8080)

lemma dnat_rule_new:
  "dnat_rule (pf_new\<lparr>outside_addr := Some ''172.24.4.2''\<rparr>) =
     ''-p tcp -d 172.24.4.2 --dport 80 -j DNAT --to 10.0.0.6:8080''"
  by (simp add: dnat_rule_def rule_in_def str_int_def pf_new_def digits_80 digits_8080)

text \<open>
  C3. Diffing is by full structural equality of the records, not by the key
  (protocol, outside port). With the gateway port of the example, the stored rule
  tcp/80 to 10.0.0.5:8080 and the desired rule tcp/80 to 10.0.0.6:8080, the desired entry
  gets the gateway's first fixed address as its \<open>outside_addr\<close>, the diff is
  adds = [new entry], removes = [old entry], and the pass installs the new DNAT rule,
  retracts the old one and commits: a delete plus an add, for every router state \<open>i\<close>
  holding that stored rule and that desired rule.
\<close>

theorem portforwardings_replace:
  "let new_e = pf_new\<lparr>outside_addr := Some ''172.24.4.2''\<rparr>;
       i0 = i\<lparr>ri_portforwardings := [pf_old],
              router := (router i)\<lparr>portforwardings := Some [pf_new]\<rparr>\<rparr>
   in set_outside_addr gw1 [pf_new] = Inr [new_e]
    \<and> diff_list_of_dict [pf_old] [new_e] = ([new_e], [pf_old])
    \<and> snd (process_router_portforwardings ar i0 (Some gw1)) =
        i0\<lparr>router := (router i)\<lparr>portforwardings := Some [new_e]\<rparr>,
           ri_portforwardings := [new_e],
           iptables_manager := iptables_manager i @
             [Add_rule ''PREROUTING''
                ''-p tcp -d 172.24.4.2 --dport 80 -j DNAT --to 10.0.0.6:8080'' ''portforwarding'',
              Remove_rule ''PREROUTING''
                ''-p tcp -d 172.24.4.2 --dport 80 -j DNAT --to 10.0.0.5:8080'',
              Apply_rules]\<rparr>"
proof -
  define new_e where "new_e = pf_new\<lparr>outside_addr := Some ''172.24.4.2''\<rparr>"
  define i0 where "i0 = i\<lparr>ri_portforwardings := [pf_old],
              router := (router i)\<lparr>portforwardings := Some [pf_new]\<rparr>\<rparr>"
  have pop: "set_outside_addr gw1 [pf_new] = Inr [new_e]"
    by (simp add: gw1_def new_e_def)
  have ne: "new_e \<noteq> pf_old"
    by (simp add: new_e_def pf_new_def pf_old_def)
  have m1: "minus_list [new_e] [pf_old] = [new_e]"
    using ne by (simp add: minus_list_def)
  have m2: "minus_list [pf_old] [new_e] = [pf_old]"
    using ne by (simp add: minus_list_def)
  have d: "diff_list_of_dict [pf_old] [new_e] = ([new_e], [pf_old])"
    by (simp only: diff_list_of_dict_def m1 m2)
  have decl: "portforwardings (router i0) = Some [pf_new]"
    by (simp add: i0_def)
  have old: "\<forall>p\<in>set (ri_portforwardings i0). outside_addr p \<noteq> None"
    by (simp add: i0_def pf_old_def)
  have stored: "ri_portforwardings i0 = [pf_old]"
    by (simp add: i0_def)
  have r: "router i0 = (router i)\<lparr>portforwardings := Some [pf_new]\<rparr>"
    by (simp add: i0_def)
  have log: "iptables_manager i0 = iptables_manager i"
    by (simp add: i0_def)
  have pass: "snd (process_router_portforwardings ar i0 (Some gw1)) =
        i0\<lparr>router := (router i)\<lparr>portforwardings := Some [new_e]\<rparr>,
           ri_portforwardings := [new_e],
           iptables_manager := iptables_manager i @
             [Add_rule ''PREROUTING''
                ''-p tcp -d 172.24.4.2 --dport 80 -j DNAT --to 10.0.0.6:8080'' ''portforwarding'',
              Remove_rule ''PREROUTING''
                ''-p tcp -d 172.24.4.2 --dport 80 -j DNAT --to 10.0.0.5:8080'',
              Apply_rules]\<rparr>"
    by (simp add: gateway_pass[OF decl pop old] stored r log m1 m2 dnat_rule_old
        dnat_rule_new[folded new_e_def])
  show ?thesis
    unfolding Let_def new_e_def[symmetric] i0_def[symmetric]
    using pop d pass by blast
qed

text \<open>
  C8. The degenerate branches. A router document without the key \<open>portforwardings\<close>:
  the step returns at once, the router state is unchanged, no rule is touched and nothing
  is committed, with or without a gateway port. The key present and no gateway port: one
  \<open>remove_rule\<close> for every stored entry, in order, then \<open>apply\<close>, and the stored collection is
  empty; the step raises only what \<open>apply\<close> raises. The stored entries carry their
  \<open>outside_addr\<close>, as every collection stored by a pass does (\<open>set_outside_addr_populated\<close>).
\<close>

theorem portforwardings_degenerate:
  "(portforwardings (router i) = None \<longrightarrow>
      process_router_portforwardings ar i gw = (Inr (), i))
   \<and> (portforwardings (router j) \<noteq> None
        \<and> (\<forall>p\<in>set (ri_portforwardings j). outside_addr p \<noteq> None) \<longrightarrow>
      process_router_portforwardings ar j None =
        ((case ar (router_id j) of Some e \<Rightarrow> Inl e | None \<Rightarrow> Inr ()),
         j\<lparr>ri_portforwardings := [],
           iptables_manager := iptables_manager j
             @ map (\<lambda>p. Remove_rule ''PREROUTING'' (dnat_rule p)) (ri_portforwardings j)
             @ [Apply_rules]\<rparr>))"
proof (intro conjI impI)
  assume "portforwardings (router i) = None"
  then show "process_router_portforwardings ar i gw = (Inr (), i)"
    by (simp add: process_router_portforwardings_def)
next
  assume a: "portforwardings (router j) \<noteq> None
        \<and> (\<forall>p\<in>set (ri_portforwardings j). outside_addr p \<noteq> None)"
  then obtain new where decl: "portforwardings (router j) = Some new" by auto
  from a have old: "\<forall>p\<in>set (ri_portforwardings j). outside_addr p \<noteq> None" by simp
  show "process_router_portforwardings ar j None =
        ((case ar (router_id j) of Some e \<Rightarrow> Inl e | None \<Rightarrow> Inr ()),
         j\<lparr>ri_portforwardings := [],
           iptables_manager := iptables_manager j
             @ map (\<lambda>p. Remove_rule ''PREROUTING'' (dnat_rule p)) (ri_portforwardings j)
             @ [Apply_rules]\<rparr>)"
    by (rule no_gateway_pass[OF decl old])
qed

theorem portforwardings_degenerate_witness:
  "process_router_portforwardings (\<lambda>r. None)
      (ri1\<lparr>router := doc1\<lparr>portforwardings := None\<rparr>\<rparr>) (Some gw1) =
      (Inr (), ri1\<lparr>router := doc1\<lparr>portforwardings := None\<rparr>\<rparr>)
   \<and> process_router_portforwardings (\<lambda>r. None) ri1 None =
      (Inr (), ri1\<lparr>ri_portforwardings := [],
         iptables_manager :=
           [Remove_rule ''PREROUTING''
              ''-p tcp -d 172.24.4.2 --dport 80 -j DNAT --to 10.0.0.5:8080'',
            Apply_rules]\<rparr>)"
proof -
  have h1: "portforwardings (router (ri1\<lparr>router := doc1\<lparr>portforwardings := None\<rparr>\<rparr>)) = None"
    by simp
  have h2: "portforwardings (router ri1) \<noteq> None
        \<and> (\<forall>p\<in>set (ri_portforwardings ri1). outside_addr p \<noteq> None)"
    by (simp add: ri1_def doc1_def pf_old_def)
  have s: "ri_portforwardings ri1 = [pf_old]" "iptables_manager ri1 = []"
    by (simp_all add: ri1_def)
  from portforwardings_degenerate[of "ri1\<lparr>router := doc1\<lparr>portforwardings := None\<rparr>\<rparr>"
      "\<lambda>r. None" "Some gw1" ri1] h1 h2
  show ?thesis by (simp add: s dnat_rule_old)
qed

text \<open>
  C4. Idempotence. A pass with a gateway port (whose \<open>fixed_ips\<close> is not empty, or with
  nothing desired) stores the desired collection, with the outside address filled in,
  whatever the deltas were and whether \<open>apply\<close> failed or not. A second pass with the same
  gateway port and an unchanged desired state (the document as first delivered, or as the first
  pass left it) computes empty adds and removes and asks nothing of the rule engine but
  \<open>apply\<close>.
\<close>

theorem portforwardings_idempotent:
  assumes decl: "portforwardings (router i) = Some new"
    and gw: "new = [] \<or> fixed_ips gw \<noteq> []"
    and old: "\<forall>p\<in>set (ri_portforwardings i). outside_addr p \<noteq> None"
  shows "\<exists>desired i1.
           set_outside_addr gw new = Inr desired
         \<and> snd (process_router_portforwardings ar i (Some gw)) = i1
         \<and> ri_portforwardings i1 = desired
         \<and> (\<forall>d. portforwardings d = Some new \<or> portforwardings d = Some desired \<longrightarrow>
               diff_list_of_dict (ri_portforwardings (i1\<lparr>router := d\<rparr>)) desired = ([], [])
             \<and> snd (process_router_portforwardings ar (i1\<lparr>router := d\<rparr>) (Some gw)) =
                 i1\<lparr>router := d\<lparr>portforwardings := Some desired\<rparr>,
                    iptables_manager := iptables_manager i1 @ [Apply_rules]\<rparr>)"
proof -
  from gw obtain desired where pop: "set_outside_addr gw new = Inr desired"
  proof
    assume "new = []"
    then have "set_outside_addr gw new = Inr []" by simp
    then show ?thesis by (rule that)
  next
    assume "fixed_ips gw \<noteq> []"
    then obtain f fs where "fixed_ips gw = f # fs" by (cases "fixed_ips gw") auto
    from set_outside_addr_Cons[OF this, of new] show ?thesis by (rule that)
  qed
  define i1 where "i1 = snd (process_router_portforwardings ar i (Some gw))"
  have st: "ri_portforwardings i1 = desired"
    by (simp add: i1_def gateway_pass[OF decl pop old])
  have populated: "\<forall>p\<in>set desired. outside_addr p \<noteq> None"
    by (rule set_outside_addr_populated[OF pop])
  have second: "diff_list_of_dict (ri_portforwardings (i1\<lparr>router := d\<rparr>)) desired = ([], [])
             \<and> snd (process_router_portforwardings ar (i1\<lparr>router := d\<rparr>) (Some gw)) =
                 i1\<lparr>router := d\<lparr>portforwardings := Some desired\<rparr>,
                    iptables_manager := iptables_manager i1 @ [Apply_rules]\<rparr>"
    if d: "portforwardings d = Some new \<or> portforwardings d = Some desired" for d
  proof -
    from d obtain new' where decl': "portforwardings (router (i1\<lparr>router := d\<rparr>)) = Some new'"
      and pop': "set_outside_addr gw new' = Inr desired"
      using pop set_outside_addr_idem[OF pop] by auto
    have old': "\<forall>p\<in>set (ri_portforwardings (i1\<lparr>router := d\<rparr>)). outside_addr p \<noteq> None"
      using populated by (simp add: st)
    show ?thesis
      by (simp add: gateway_pass[OF decl' pop' old'] st diff_list_of_dict_same minus_list_self)
  qed
  from pop st second show ?thesis
    unfolding i1_def by blast
qed

theorem portforwardings_idempotent_witness:
  "\<exists>i1. snd (process_router_portforwardings (\<lambda>r. None) ri1 (Some gw1)) = i1
      \<and> ri_portforwardings i1 = [pf_new\<lparr>outside_addr := Some ''172.24.4.2''\<rparr>]
      \<and> snd (process_router_portforwardings (\<lambda>r. None) (i1\<lparr>router := doc1\<rparr>) (Some gw1)) =
           i1\<lparr>router := doc1\<lparr>portforwardings :=
                  Some [pf_new\<lparr>outside_addr := Some ''172.24.4.2''\<rparr>]\<rparr>,
              iptables_manager := iptables_manager i1 @ [Apply_rules]\<rparr>"
proof -
  have h1: "portforwardings (router ri1) = Some [pf_new]"
    by (simp add: ri1_def doc1_def)
  have h2: "[pf_new] = [] \<or> fixed_ips gw1 \<noteq> []"
    by (simp add: gw1_def)
  have h3: "\<forall>p\<in>set (ri_portforwardings ri1). outside_addr p \<noteq> None"
    by (simp add: ri1_def pf_old_def)
  have pop: "set_outside_addr gw1 [pf_new] = Inr [pf_new\<lparr>outside_addr := Some ''172.24.4.2''\<rparr>]"
    by (simp add: gw1_def)
  have d: "portforwardings doc1 = Some [pf_new]"
    by (simp add: doc1_def)
  from portforwardings_idempotent[OF h1 h2 h3, of "\<lambda>r. None"] pop d
  show ?thesis by auto
qed

section \<open>Properties of the startup loop\<close>

lemma loop_timeout:
  "rpc n = Inl MessagingTimeout \<Longrightarrow>
   service_plugins_loop rpc c n =
     (if c - 1 > 0 then service_plugins_loop rpc (c - 1) (Suc n)
      else (Inl MessagingTimeout, Suc n))"
  by (subst service_plugins_loop.simps) (simp add: Let_def)

lemma loop_other:
  "rpc n \<noteq> Inl MessagingTimeout \<Longrightarrow>
   service_plugins_loop rpc c n = (plugins_outcome (rpc n), Suc n)"
  by (subst service_plugins_loop.simps)
     (simp add: Let_def plugins_outcome_def split: sum.splits exn.splits)

lemma loop_answer:
  "\<forall>k<m. rpc (n + k) = Inl MessagingTimeout \<Longrightarrow> rpc (n + m) \<noteq> Inl MessagingTimeout \<Longrightarrow>
   int m < c \<Longrightarrow>
   service_plugins_loop rpc c n = (plugins_outcome (rpc (n + m)), Suc (n + m))"
proof (induction m arbitrary: n c)
  case 0
  then show ?case by (simp add: loop_other)
next
  case (Suc m)
  from Suc.prems(1) have t: "rpc n = Inl MessagingTimeout" by (metis add_0_right zero_less_Suc)
  have rest: "\<forall>k<m. rpc (Suc n + k) = Inl MessagingTimeout"
    using Suc.prems(1) by (metis Suc_less_eq add_Suc_shift)
  have ans: "rpc (Suc n + m) \<noteq> Inl MessagingTimeout"
    using Suc.prems(2) by simp
  have c: "int m < c - 1" "c - 1 > 0"
    using Suc.prems(3) by simp_all
  show ?case
    using Suc.IH[OF rest ans c(1)] c(2) by (simp add: loop_timeout[of rpc n, OF t])
qed

lemma loop_exhausted:
  "\<forall>k<Suc m. rpc (n + k) = Inl MessagingTimeout \<Longrightarrow> c = int (Suc m) \<Longrightarrow>
   service_plugins_loop rpc c n = (Inl MessagingTimeout, n + Suc m)"
proof (induction m arbitrary: n c)
  case 0
  then have t: "rpc n = Inl MessagingTimeout" by simp
  show ?case using 0(2) by (simp add: loop_timeout[of rpc n, OF t])
next
  case (Suc m)
  from Suc.prems(1) have t: "rpc n = Inl MessagingTimeout" by (metis add_0_right zero_less_Suc)
  have rest: "\<forall>k<Suc m. rpc (Suc n + k) = Inl MessagingTimeout"
    using Suc.prems(1) by (metis Suc_less_eq add_Suc_shift)
  have c: "c - 1 = int (Suc m)" "c - 1 > 0"
    using Suc.prems(2) by simp_all
  show ?case
    using Suc.IH[OF rest c(1)] c(2) by (simp add: loop_timeout[of rpc n, OF t])
qed

lemma loop_calls:
  "snd (service_plugins_loop rpc c n) \<le> n + max 1 (nat c)"
proof (induction rpc c n rule: service_plugins_loop.induct)
  case (1 rpc retry_count n)
  show ?case
  proof (cases "rpc n = Inl MessagingTimeout")
    case True
    show ?thesis
    proof (cases "retry_count - 1 > 0")
      case True
      from "1.IH"[OF refl \<open>rpc n = Inl MessagingTimeout\<close> refl True]
      have "snd (service_plugins_loop rpc (retry_count - 1) (Suc n))
              \<le> Suc n + max 1 (nat (retry_count - 1))" .
      with True show ?thesis
        by (simp add: loop_timeout[of rpc n, OF \<open>rpc n = Inl MessagingTimeout\<close>])
    next
      case False
      then show ?thesis
        by (simp add: loop_timeout[of rpc n, OF \<open>rpc n = Inl MessagingTimeout\<close>])
    qed
  next
    case False
    then show ?thesis by (simp add: loop_other)
  qed
qed

text \<open>
  C9. \<open>get_service_plugin_list\<close> is called at most 5 times. While the answer is a
  messaging timeout the call is made again, up to the fifth call (the fourth repetition);
  the first answer that is not a timeout ends the loop with that answer. When all five calls
  time out, the fifth timeout is raised again and there is no sixth call.
\<close>

theorem service_plugins_retry:
  "snd (neutron_service_plugins rpc) \<le> 5
   \<and> ((\<forall>k<5. rpc k = Inl MessagingTimeout) \<longrightarrow>
        neutron_service_plugins rpc = (Inl MessagingTimeout, 5))
   \<and> (\<forall>n<5. (\<forall>k<n. rpc k = Inl MessagingTimeout) \<and> rpc n \<noteq> Inl MessagingTimeout \<longrightarrow>
        neutron_service_plugins rpc = (plugins_outcome (rpc n), Suc n))"
proof (intro conjI impI allI)
  show "snd (neutron_service_plugins rpc) \<le> 5"
    using loop_calls[of rpc 5 0] by (simp add: neutron_service_plugins_def)
next
  assume a: "\<forall>k<5. rpc k = Inl MessagingTimeout"
  have "\<forall>k<Suc 4. rpc (0 + k) = Inl MessagingTimeout" using a by simp
  from loop_exhausted[OF this, of 5]
  show "neutron_service_plugins rpc = (Inl MessagingTimeout, 5)"
    by (simp add: neutron_service_plugins_def)
next
  fix n :: nat
  assume n: "n < 5"
    and a: "(\<forall>k<n. rpc k = Inl MessagingTimeout) \<and> rpc n \<noteq> Inl MessagingTimeout"
  have 1: "\<forall>k<n. rpc (0 + k) = Inl MessagingTimeout" using a by simp
  have 2: "rpc (0 + n) \<noteq> Inl MessagingTimeout" using a by simp
  have 3: "int n < 5" using n by simp
  from loop_answer[OF 1 2 3]
  show "neutron_service_plugins rpc = (plugins_outcome (rpc n), Suc n)"
    by (simp add: neutron_service_plugins_def)
qed

theorem service_plugins_retry_witness:
  "neutron_service_plugins (\<lambda>k. Inl MessagingTimeout) = (Inl MessagingTimeout, 5)
   \<and> neutron_service_plugins (\<lambda>k. if k < 4 then Inl MessagingTimeout else Inr [''router''])
       = (Inr (Some [''router'']), 5)
   \<and> snd (neutron_service_plugins (\<lambda>k. if k < 4 then Inl MessagingTimeout else Inr [''router''])) \<le> 5"
proof -
  have a: "\<forall>k<5. (\<lambda>k::nat. (Inl MessagingTimeout :: exn + string list)) k = Inl MessagingTimeout"
    by simp
  let ?rpc = "\<lambda>k::nat. if k < 4 then Inl MessagingTimeout else (Inr [''router''] :: exn + string list)"
  have b: "(4::nat) < 5" by simp
  have c: "(\<forall>k<4. ?rpc k = Inl MessagingTimeout) \<and> ?rpc 4 \<noteq> Inl MessagingTimeout"
    by simp
  from service_plugins_retry[of "\<lambda>k. Inl MessagingTimeout"] a
  have 1: "neutron_service_plugins (\<lambda>k. Inl MessagingTimeout) = (Inl MessagingTimeout, 5)"
    by blast
  from service_plugins_retry[of ?rpc] b c
  have 2: "neutron_service_plugins ?rpc = (plugins_outcome (?rpc 4), Suc 4)"
    and 3: "snd (neutron_service_plugins ?rpc) \<le> 5"
    by blast+
  from 1 2 3 show ?thesis by (simp add: plugins_outcome_def)
qed

section \<open>Properties of the creation path and the compatibility check\<close>

text \<open>
  C2. A router document with both \<open>distributed\<close> and \<open>ha\<close> true: \<open>_create_router\<close> raises
  \<open>DvrHaRouterNotSupported\<close>, and so do \<open>_router_added\<close> and the creation path; the agent's
  state is left as it was, so \<open>router_info\<close> is unchanged, no runtime object is stored and
  no collaborator has been called.
\<close>

theorem dvr_ha_never_registered:
  assumes "truthy (distributed r)" and "truthy (ha r)"
  shows "create_router rid r = Inl (DvrHaRouterNotSupported rid)
       \<and> router_added en rid r s = (Inl (DvrHaRouterNotSupported rid), s)
       \<and> process_added_router en r s = (Inl (DvrHaRouterNotSupported (r_id r)), s)"
  using assms
  by (simp add: create_router_def router_added_def process_added_router_def and_then_def)

theorem dvr_ha_never_registered_witness:
  "router_added env1 ''r2'' (doc1\<lparr>r_id := ''r2'', distributed := Some True, ha := Some True\<rparr>) agent1
     = (Inl (DvrHaRouterNotSupported ''r2''), agent1)
   \<and> map_of (router_info agent1) ''r2'' = None"
proof -
  let ?r = "doc1\<lparr>r_id := ''r2'', distributed := Some True, ha := Some True\<rparr>"
  have h1: "truthy (distributed ?r)" and h2: "truthy (ha ?r)" by simp_all
  from dvr_ha_never_registered[OF h1 h2, of "''r2''" env1 agent1]
  show ?thesis by (simp add: agent1_def)
qed

text \<open>
  C10. When \<open>external_network_bridge\<close> is configured and the device does not exist,
  \<open>_process_router_if_compatible\<close> returns without an exception and without any change
  of the agent's state, whatever the router: nothing is created, updated or removed and
  no observer is notified.
\<close>

theorem missing_bridge_skips_router:
  assumes "external_network_bridge cf \<noteq> []"
    and "\<not> device_exists en (external_network_bridge cf)"
  shows "process_router_if_compatible cf en r s = (Inr (), s)"
  using assms by (simp add: process_router_if_compatible_def)

theorem missing_bridge_skips_router_witness:
  "process_router_if_compatible (conf1\<lparr>external_network_bridge := ''br-ex''\<rparr>) env1 doc1 agent1
     = (Inr (), agent1)"
proof -
  have h1: "external_network_bridge (conf1\<lparr>external_network_bridge := ''br-ex''\<rparr>) \<noteq> []"
    by simp
  have h2: "\<not> device_exists env1
              (external_network_bridge (conf1\<lparr>external_network_bridge := ''br-ex''\<rparr>))"
    by (simp add: env1_def)
  from missing_bridge_skips_router[OF h1 h2] show ?thesis .
qed

section \<open>The worker loop at the inputs where it leaves the specification\<close>

lemmas agent_defs =
  process_one_def process_fetched_def router_removed_def process_router_def
  process_router_portforwardings_def process_router_if_compatible_def
  fetch_external_net_id_def add_or_update_def process_updated_router_def
  process_added_router_def router_added_def create_router_def
  and_then_def call_def store_def utcnow_def is_ha_def get_ex_gw_port_def ex_net_id_of_def
  update_portforwardings_def iptables_apply_def rule_in_def

lemmas example_defs =
  conf1_def env1_def agent1_def ri1_def doc1_def gw1_def pf_old_def pf_new_def

lemma fetch_failure_abandons:
  assumes "u_action u \<noteq> Some DELETE_ROUTER" and "u_router u = None"
    and "get_routers en (Some [u_id u]) = Inl e"
  shows "process_one cf en u s =
           (Inr (), s\<lparr>clock_reads := Suc (clock_reads s), fullsync := True\<rparr>)"
  using assms by (simp add: process_one_def utcnow_def)

lemma removal_failure_abandons:
  "fst (process_fetched cf en u None s) = Inr ()
   \<and> (fst (router_removed en (u_id u) s) \<noteq> Inr () \<longrightarrow>
        fullsync (snd (process_fetched cf en u None s)))"
  by (cases "router_removed en (u_id u) s")
     (auto simp: process_fetched_def split: sum.splits)

lemma processing_failure_abandons:
  assumes "process_router_if_compatible cf en r s = (Inl e, s')"
    and "\<forall>m. e \<noteq> RouterNotCompatibleWithAgent m"
  shows "process_fetched cf en u (Some r) s = (Inr (), s'\<lparr>fullsync := True\<rparr>)"
  using assms by (cases e) (simp_all add: process_fetched_def)

lemma success_releases:
  assumes "process_router_if_compatible cf en r s = (Inr (), s')"
  shows "process_fetched cf en u (Some r) s =
           call en (Fetched_and_processed (u_id u) (u_timestamp u)) s'"
  using assms by (simp add: process_fetched_def)

text \<open>
  C1. The removal path does not release the lease. With router r1 registered and no call
  failing, an update with action \<open>DELETE_ROUTER\<close> removes r1 and the iteration ends
  without \<open>fetched_and_processed\<close>; so does an update whose fetch returns no router.
  An update of r1 that goes through the update path ends with
  \<open>fetched_and_processed(update.timestamp)\<close> (\<open>success_releases\<close>).
\<close>

theorem removal_path_skips_release:
  "process_router_update conf1 env1 [delete_r1] agent1 =
        (Inr (), agent1\<lparr>router_info := [], trace := removed_r1_trace\<rparr>)
   \<and> process_router_update conf1 env1 [fetch_r1] agent1 =
        (Inr (), agent1\<lparr>router_info := [], trace := removed_r1_trace, clock_reads := 1\<rparr>)
   \<and> (\<forall>rid t. Fetched_and_processed rid t \<notin> set removed_r1_trace)
   \<and> fst (process_router_update conf1 env1 [update_r1] agent1) = Inr ()
   \<and> trace (snd (process_router_update conf1 env1 [update_r1] agent1)) =
        [Notify before_router_updated ''r1'', Process_internal_ports ''r1'',
         Process_external ''r1'', Routes_updated ''r1'', Notify after_router_updated ''r1'',
         Fetched_and_processed ''r1'' 7]"
proof (intro conjI)
  show "process_router_update conf1 env1 [delete_r1] agent1 =
        (Inr (), agent1\<lparr>router_info := [], trace := removed_r1_trace\<rparr>)"
    by (simp add: agent_defs example_defs delete_r1_def removed_r1_trace_def Let_def)
  show "process_router_update conf1 env1 [fetch_r1] agent1 =
        (Inr (), agent1\<lparr>router_info := [], trace := removed_r1_trace, clock_reads := 1\<rparr>)"
    by (simp add: agent_defs example_defs fetch_r1_def removed_r1_trace_def Let_def)
  show "\<forall>rid t. Fetched_and_processed rid t \<notin> set removed_r1_trace"
    by (simp add: removed_r1_trace_def)
  show "fst (process_router_update conf1 env1 [update_r1] agent1) = Inr ()"
    by (simp add: agent_defs example_defs update_r1_def Let_def diff_list_of_dict_def
        minus_list_def)
  show "trace (snd (process_router_update conf1 env1 [update_r1] agent1)) =
        [Notify before_router_updated ''r1'', Process_internal_ports ''r1'',
         Process_external ''r1'', Routes_updated ''r1'', Notify after_router_updated ''r1'',
         Fetched_and_processed ''r1'' 7]"
    by (simp add: agent_defs example_defs update_r1_def Let_def diff_list_of_dict_def
        minus_list_def)
qed

text \<open>
  C7. An error while an incompatible, known router is removed leaves the loop. The update
  carries a document of r1 without external gateway, the agent does not handle internal-only
  routers, and \<open>process_external\<close> fails during the removal: the exception leaves
  \<open>_process_router_update\<close>, \<open>fullsync\<close> stays false and the next update is not looked
  at. The same failure in the removal of an update with action \<open>DELETE_ROUTER\<close> is caught:
  \<open>fullsync\<close> is set and the loop goes on (\<open>removal_failure_abandons\<close>).
\<close>

theorem forced_removal_failure_escapes:
  "fst (process_router_update conf1 env_fail [incompatible_r1, delete_r3] agent1) =
        Inl (Exception ''driver failure'')
   \<and> \<not> fullsync (snd (process_router_update conf1 env_fail [incompatible_r1, delete_r3] agent1))
   \<and> trace (snd (process_router_update conf1 env_fail [incompatible_r1, delete_r3] agent1)) =
        [Notify before_router_removed ''r1'', Process_internal_ports ''r1'',
         Process_external ''r1'']
   \<and> fst (process_router_update conf1 env_fail [delete_r1, delete_r3] agent1) = Inr ()
   \<and> fullsync (snd (process_router_update conf1 env_fail [delete_r1, delete_r3] agent1))"
proof (intro conjI)
  show "fst (process_router_update conf1 env_fail [incompatible_r1, delete_r3] agent1) =
        Inl (Exception ''driver failure'')"
    by (simp add: agent_defs example_defs env_fail_def incompatible_r1_def delete_r3_def Let_def)
  show "\<not> fullsync (snd (process_router_update conf1 env_fail [incompatible_r1, delete_r3] agent1))"
    by (simp add: agent_defs example_defs env_fail_def incompatible_r1_def delete_r3_def Let_def)
  show "trace (snd (process_router_update conf1 env_fail [incompatible_r1, delete_r3] agent1)) =
        [Notify before_router_removed ''r1'', Process_internal_ports ''r1'',
         Process_external ''r1'']"
    by (simp add: agent_defs example_defs env_fail_def incompatible_r1_def delete_r3_def Let_def)
  show "fst (process_router_update conf1 env_fail [delete_r1, delete_r3] agent1) = Inr ()"
    by (simp add: agent_defs example_defs env_fail_def delete_r1_def delete_r3_def Let_def)
  show "fullsync (snd (process_router_update conf1 env_fail [delete_r1, delete_r3] agent1))"
    by (simp add: agent_defs example_defs env_fail_def delete_r1_def delete_r3_def Let_def)
qed

section \<open>Properties of the full sync\<close>

lemma call_quiet:
  "raises en e = None \<Longrightarrow> call en e s = (Inr (), s\<lparr>trace := trace s @ [e]\<rparr>)"
  by (simp add: call_def)

lemma calls_quiet:
  "\<forall>e\<in>set es. raises en e = None \<Longrightarrow> calls en es s = (Inr (), s\<lparr>trace := trace s @ es\<rparr>)"
proof (induction es arbitrary: s)
  case Nil
  show ?case by simp
next
  case (Cons e es)
  have e: "raises en e = None" and rest: "\<forall>e\<in>set es. raises en e = None"
    using Cons.prems by simp_all
  show ?case
    by (simp add: call_quiet[OF e] and_then_def Cons.IH[OF rest])
qed

lemma enqueue_routers_quiet:
  "\<forall>e\<in>set (sync_events ts rs). raises en e = None \<Longrightarrow>
   enqueue_routers en ts rs s = (Inr (), s\<lparr>trace := trace s @ sync_events ts rs\<rparr>)"
proof (induction rs arbitrary: s)
  case Nil
  show ?case by (simp add: sync_events_def)
next
  case (Cons r rs)
  have h: "\<forall>e\<in>set [Keep_router (r_id r), Queue_add (sync_update ts r)]. raises en e = None"
    and rest: "\<forall>e\<in>set (sync_events ts rs). raises en e = None"
    using Cons.prems by (simp_all add: sync_events_def)
  show ?case
    by (simp add: calls_quiet[OF h] and_then_def Cons.IH[OF rest] sync_events_def
        del: calls.simps)
qed

lemma enqueue_deletes_quiet:
  "\<forall>e\<in>set (delete_events ts rids). raises en e = None \<Longrightarrow>
   enqueue_deletes en ts rids s = (Inr (), s\<lparr>trace := trace s @ delete_events ts rids\<rparr>)"
proof (induction rids arbitrary: s)
  case Nil
  show ?case by (simp add: delete_events_def)
next
  case (Cons r rs)
  have h: "\<forall>e\<in>set [Keep_router r, Queue_add (delete_update ts r)]. raises en e = None"
    and rest: "\<forall>e\<in>set (delete_events ts rs). raises en e = None"
    using Cons.prems by (simp_all add: delete_events_def)
  show ?case
    by (simp add: calls_quiet[OF h] and_then_def Cons.IH[OF rest] delete_events_def
        del: calls.simps)
qed

lemma delete_updates_append:
  "delete_updates (xs @ ys) = delete_updates xs @ delete_updates ys"
  by (induction xs rule: delete_updates.induct) simp_all

lemma delete_updates_sync: "delete_updates (sync_events ts rs) = []"
  by (induction rs) (simp_all add: sync_events_def sync_update_def)

lemma delete_updates_delete: "delete_updates (delete_events ts rids) = map (delete_update ts) rids"
  by (induction rids) (simp_all add: delete_events_def delete_update_def)

lemma filter_id_delete_update:
  "filter (\<lambda>u. u_id u = rid) (map (delete_update ts) rids) =
     map (delete_update ts) (filter (\<lambda>x. x = rid) rids)"
  by (induction rids) (simp_all add: delete_update_def)

lemma filter_eq_distinct:
  "distinct xs \<Longrightarrow> filter (\<lambda>x. x = a) xs = (if a \<in> set xs then [a] else [])"
  by (induction xs) auto

lemma delete_events_split:
  "rid \<in> set rids \<Longrightarrow>
   \<exists>pre post. delete_events ts rids = pre @ [Keep_router rid, Queue_add (delete_update ts rid)] @ post"
proof -
  assume "rid \<in> set rids"
  then obtain xs ys where "rids = xs @ rid # ys" by (meson split_list)
  then have "delete_events ts rids =
      delete_events ts xs @ [Keep_router rid, Queue_add (delete_update ts rid)] @ delete_events ts ys"
    by (simp add: delete_events_def)
  then show ?thesis by blast
qed

lemma fetch_and_sync_quiet:
  assumes fetch: "fetch_routers cf en = Inr routers"
    and quiet: "\<forall>e. raises en e = None"
  shows "fetch_and_sync_all_routers cf en s =
     (Inr (), s\<lparr>clock_reads := Suc (clock_reads s), fullsync := False,
         trace := trace s @ sync_events (clock en (clock_reads s)) routers
                  @ delete_events (clock en (clock_reads s)) (gone_ids s routers)\<rparr>)"
proof -
  have q1: "\<forall>e\<in>set (sync_events ts rs). raises en e = None" for ts rs
    using quiet by simp
  have q2: "\<forall>e\<in>set (delete_events ts rids). raises en e = None" for ts rids
    using quiet by simp
  show ?thesis
    by (simp add: fetch_and_sync_all_routers_def fetch utcnow_def and_then_def Let_def
        enqueue_routers_quiet[OF q1] enqueue_deletes_quiet[OF q2] gone_ids_def)
qed

text \<open>
  C6. When the fetch succeeds and no call raises, for every router id that was in
  \<open>router_info\<close> before the fetch and is not in the fetched list, the calls of the pass
  contain \<open>keep_router\<close> for that id followed at once by the queueing of one
  \<open>DELETE_ROUTER\<close> update for it, with the priority of the sync task and the timestamp of
  the pass, and no other \<open>DELETE_ROUTER\<close> update for that id; for an id in the fetched
  list there is none.
\<close>

theorem full_sync_deletes_vanished:
  assumes fetch: "fetch_routers cf en = Inr routers"
    and quiet: "\<forall>e. raises en e = None"
  shows "\<exists>new.
      fetch_and_sync_all_routers cf en s =
        (Inr (), s\<lparr>clock_reads := Suc (clock_reads s), fullsync := False,
                   trace := trace s @ new\<rparr>)
    \<and> (\<forall>rid.
         (rid \<in> fst ` set (router_info s) \<and> rid \<notin> r_id ` set routers \<longrightarrow>
            filter (\<lambda>u. u_id u = rid) (delete_updates new) =
              [\<lparr>u_id = rid, u_priority = PRIORITY_SYNC_ROUTERS_TASK,
                u_action = Some DELETE_ROUTER, u_router = None,
                u_timestamp = clock en (clock_reads s)\<rparr>]
          \<and> (\<exists>pre post. new = pre @ [Keep_router rid,
                 Queue_add (delete_update (clock en (clock_reads s)) rid)] @ post))
       \<and> (rid \<in> r_id ` set routers \<longrightarrow>
            filter (\<lambda>u. u_id u = rid) (delete_updates new) = []))"
proof -
  define ts where "ts = clock en (clock_reads s)"
  define gone where "gone = gone_ids s routers"
  define new where "new = sync_events ts routers @ delete_events ts gone"
  have run: "fetch_and_sync_all_routers cf en s =
        (Inr (), s\<lparr>clock_reads := Suc (clock_reads s), fullsync := False,
                   trace := trace s @ new\<rparr>)"
    by (simp add: fetch_and_sync_quiet[OF fetch quiet] new_def ts_def gone_def)
  have d: "distinct gone" by (simp add: gone_def gone_ids_def)
  have mem: "rid \<in> set gone \<longleftrightarrow> rid \<in> fst ` set (router_info s) \<and> rid \<notin> r_id ` set routers" for rid
    by (auto simp: gone_def gone_ids_def)
  have dels: "filter (\<lambda>u. u_id u = rid) (delete_updates new) =
                (if rid \<in> set gone then [delete_update ts rid] else [])" for rid
    by (simp add: new_def delete_updates_append delete_updates_sync delete_updates_delete
        filter_id_delete_update filter_eq_distinct[OF d])
  have part: "(rid \<in> fst ` set (router_info s) \<and> rid \<notin> r_id ` set routers \<longrightarrow>
            filter (\<lambda>u. u_id u = rid) (delete_updates new) =
              [\<lparr>u_id = rid, u_priority = PRIORITY_SYNC_ROUTERS_TASK,
                u_action = Some DELETE_ROUTER, u_router = None,
                u_timestamp = ts\<rparr>]
          \<and> (\<exists>pre post. new = pre @ [Keep_router rid, Queue_add (delete_update ts rid)] @ post))
       \<and> (rid \<in> r_id ` set routers \<longrightarrow>
            filter (\<lambda>u. u_id u = rid) (delete_updates new) = [])" for rid
  proof (intro conjI impI)
    assume a: "rid \<in> fst ` set (router_info s) \<and> rid \<notin> r_id ` set routers"
    then have g: "rid \<in> set gone" by (simp add: mem)
    show "filter (\<lambda>u. u_id u = rid) (delete_updates new) =
              [\<lparr>u_id = rid, u_priority = PRIORITY_SYNC_ROUTERS_TASK,
                u_action = Some DELETE_ROUTER, u_router = None, u_timestamp = ts\<rparr>]"
      using g by (simp add: dels delete_update_def)
    from delete_events_split[OF g, of ts] obtain pre post where
      "delete_events ts gone = pre @ [Keep_router rid, Queue_add (delete_update ts rid)] @ post"
      by blast
    then have "new = (sync_events ts routers @ pre)
                 @ [Keep_router rid, Queue_add (delete_update ts rid)] @ post"
      by (simp add: new_def)
    then show "\<exists>pre post. new = pre @ [Keep_router rid, Queue_add (delete_update ts rid)] @ post"
      by blast
  next
    assume "rid \<in> r_id ` set routers"
    then have "rid \<notin> set gone" by (simp add: mem)
    then show "filter (\<lambda>u. u_id u = rid) (delete_updates new) = []"
      by (simp add: dels)
  qed
  from run part show ?thesis unfolding ts_def by blast
qed

theorem full_sync_deletes_vanished_witness:
  "\<exists>new. fetch_and_sync_all_routers conf1 env1 agent1 =
            (Inr (), agent1\<lparr>clock_reads := 1, fullsync := False, trace := new\<rparr>)
        \<and> filter (\<lambda>u. u_id u = ''r1'') (delete_updates new) =
            [\<lparr>u_id = ''r1'', u_priority = PRIORITY_SYNC_ROUTERS_TASK,
              u_action = Some DELETE_ROUTER, u_router = None, u_timestamp = 100\<rparr>]"
proof -
  have h1: "fetch_routers conf1 env1 = Inr []"
    by (simp add: fetch_routers_def conf1_def env1_def)
  have h2: "\<forall>e. raises env1 e = None"
    by (simp add: env1_def)
  have k: "''r1'' \<in> fst ` set (router_info agent1) \<and> ''r1'' \<notin> r_id ` set []"
    by (simp add: agent1_def)
  have c: "clock env1 0 = 100" "clock_reads agent1 = 0" "trace agent1 = []"
    by (simp_all add: env1_def agent1_def)
  from full_sync_deletes_vanished[OF h1 h2, of agent1] show ?thesis
  proof (elim exE conjE)
    fix new
    assume run: "fetch_and_sync_all_routers conf1 env1 agent1 =
        (Inr (), agent1\<lparr>clock_reads := Suc (clock_reads agent1), fullsync := False,
                   trace := trace agent1 @ new\<rparr>)"
    assume props: "\<forall>rid.
         (rid \<in> fst ` set (router_info agent1) \<and> rid \<notin> r_id ` set [] \<longrightarrow>
            filter (\<lambda>u. u_id u = rid) (delete_updates new) =
              [\<lparr>u_id = rid, u_priority = PRIORITY_SYNC_ROUTERS_TASK,
                u_action = Some DELETE_ROUTER, u_router = None,
                u_timestamp = clock env1 (clock_reads agent1)\<rparr>]
          \<and> (\<exists>pre post. new = pre @ [Keep_router rid,
                 Queue_add (delete_update (clock env1 (clock_reads agent1)) rid)] @ post))
       \<and> (rid \<in> r_id ` set [] \<longrightarrow>
            filter (\<lambda>u. u_id u = rid) (delete_updates new) = [])"
    from props[rule_format, of "''r1''"] k
    have "filter (\<lambda>u. u_id u = ''r1'') (delete_updates new) =
              [\<lparr>u_id = ''r1'', u_priority = PRIORITY_SYNC_ROUTERS_TASK,
                u_action = Some DELETE_ROUTER, u_router = None,
                u_timestamp = clock env1 (clock_reads agent1)\<rparr>]"
      by simp
    with run show ?thesis by (intro exI[of _ new]) (simp add: c)
  qed
qed

lemma call_fullsync: "fullsync (snd (call en e s)) = fullsync s"
  by (simp add: call_def)

lemma calls_fullsync: "fullsync (snd (calls en es s)) = fullsync s"
  by (induction es arbitrary: s)
     (simp_all add: and_then_def call_def split: option.splits)

lemma enqueue_routers_fullsync: "fullsync (snd (enqueue_routers en ts rs s)) = fullsync s"
proof (induction rs arbitrary: s)
  case Nil
  show ?case by simp
next
  case (Cons r rs)
  obtain res s' where c: "calls en [Keep_router (r_id r), Queue_add (sync_update ts r)] s = (res, s')"
    by (cases "calls en [Keep_router (r_id r), Queue_add (sync_update ts r)] s")
  have f: "fullsync s' = fullsync s"
    using calls_fullsync[of en "[Keep_router (r_id r), Queue_add (sync_update ts r)]" s] c by simp
  show ?case
    by (cases res) (simp_all add: c and_then_def f Cons.IH del: calls.simps)
qed

lemma enqueue_deletes_fullsync: "fullsync (snd (enqueue_deletes en ts rids s)) = fullsync s"
proof (induction rids arbitrary: s)
  case Nil
  show ?case by simp
next
  case (Cons r rs)
  obtain res s' where c: "calls en [Keep_router r, Queue_add (delete_update ts r)] s = (res, s')"
    by (cases "calls en [Keep_router r, Queue_add (delete_update ts r)] s")
  have f: "fullsync s' = fullsync s"
    using calls_fullsync[of en "[Keep_router r, Queue_add (delete_update ts r)]" s] c by simp
  show ?case
    by (cases res) (simp_all add: c and_then_def f Cons.IH del: calls.simps)
qed

lemma calls_no_abort:
  "\<forall>e. raises en e \<noteq> Some AbortSyncRouters \<Longrightarrow> fst (calls en es s) \<noteq> Inl AbortSyncRouters"
  by (induction es arbitrary: s)
     (auto simp: and_then_def call_def split: option.splits)

lemma enqueue_deletes_no_abort:
  assumes "\<forall>e. raises en e \<noteq> Some AbortSyncRouters"
  shows "fst (enqueue_deletes en ts rids s) \<noteq> Inl AbortSyncRouters"
proof (induction rids arbitrary: s)
  case Nil
  show ?case by simp
next
  case (Cons r rs)
  obtain res s' where c: "calls en [Keep_router r, Queue_add (delete_update ts r)] s = (res, s')"
    by (cases "calls en [Keep_router r, Queue_add (delete_update ts r)] s")
  have f: "res \<noteq> Inl AbortSyncRouters"
    using calls_no_abort[OF assms, of "[Keep_router r, Queue_add (delete_update ts r)]" s] c
    by simp
  show ?case
    using f by (cases res) (simp_all add: c and_then_def Cons.IH del: calls.simps)
qed

lemma fetch_failure:
  "fetch_routers cf en = Inl e \<Longrightarrow>
   fetch_and_sync_all_routers cf en s =
     (Inl (if is_MessagingException e then AbortSyncRouters else e),
      s\<lparr>clock_reads := Suc (clock_reads s)\<rparr>)"
  by (simp add: fetch_and_sync_all_routers_def utcnow_def Let_def)

lemma gone_ids_alt:
  "gone_ids s routers =
     filter (\<lambda>rid. rid \<notin> r_id ` set routers) (remdups (map fst (router_info s)))"
  by (simp add: gone_ids_def)

text \<open>After a fetch that succeeded: the state in which the flag is cleared, or the failure before.\<close>

lemma fetch_success:
  assumes "fetch_routers cf en = Inr routers"
  shows "fetch_and_sync_all_routers cf en s =
     (case enqueue_routers en (clock en (clock_reads s)) routers
             (s\<lparr>clock_reads := Suc (clock_reads s)\<rparr>) of
        (Inl x, s1) \<Rightarrow> (Inl x, s1)
      | (Inr u, s1) \<Rightarrow>
          enqueue_deletes en (clock en (clock_reads s)) (gone_ids s routers)
            (s1\<lparr>fullsync := False\<rparr>))"
  unfolding gone_ids_alt
  by (simp add: fetch_and_sync_all_routers_def utcnow_def Let_def assms and_then_def)

lemma fetch_success_cleared:
  assumes fetch: "fetch_routers cf en = Inr routers"
    and ok: "fst (enqueue_routers en (clock en (clock_reads s)) routers
                    (s\<lparr>clock_reads := Suc (clock_reads s)\<rparr>)) = Inr ()"
  shows "\<not> fullsync (snd (fetch_and_sync_all_routers cf en s))"
proof -
  obtain s1 where e: "enqueue_routers en (clock en (clock_reads s)) routers
                    (s\<lparr>clock_reads := Suc (clock_reads s)\<rparr>) = (Inr (), s1)"
    using ok by (metis prod.collapse)
  show ?thesis
    by (simp add: fetch_success[OF fetch] e enqueue_deletes_fullsync)
qed

lemma fetch_success_not_cleared:
  assumes fetch: "fetch_routers cf en = Inr routers"
    and bad: "fst (enqueue_routers en (clock en (clock_reads s)) routers
                    (s\<lparr>clock_reads := Suc (clock_reads s)\<rparr>)) = Inl x"
  shows "fst (fetch_and_sync_all_routers cf en s) = Inl x
       \<and> fullsync (snd (fetch_and_sync_all_routers cf en s)) = fullsync s"
proof -
  obtain s1 where e: "enqueue_routers en (clock en (clock_reads s)) routers
                    (s\<lparr>clock_reads := Suc (clock_reads s)\<rparr>) = (Inl x, s1)"
    using bad by (metis prod.collapse)
  have "fullsync s1 = fullsync s"
    using enqueue_routers_fullsync[of en "clock en (clock_reads s)" routers
        "s\<lparr>clock_reads := Suc (clock_reads s)\<rparr>"] e by simp
  then show ?thesis
    by (simp add: fetch_success[OF fetch] e)
qed

lemma periodic_reaches_fetch:
  assumes "fullsync s" and "raises en Process_services_sync = None"
    and "raises en Namespaces_enter = None"
  shows "periodic_sync_routers_task cf en s =
     (case (case fetch_and_sync_all_routers cf en
                   (s\<lparr>trace := trace s @ [Process_services_sync, Namespaces_enter]\<rparr>) of
              (Inl e, s') \<Rightarrow>
                (case call en Namespaces_exit s' of
                   (Inl x, s'') \<Rightarrow> (Inl x, s'')
                 | (Inr u, s'') \<Rightarrow> (Inl e, s''))
            | (Inr u, s') \<Rightarrow> call en Namespaces_exit s')
      of (Inl AbortSyncRouters, s') \<Rightarrow> (Inr (), s'\<lparr>fullsync := True\<rparr>)
       | res \<Rightarrow> res)"
  using assms by (simp add: periodic_sync_routers_task_def call_def and_then_def)

lemma periodic_fetch_failed:
  assumes flag: "fullsync s" and fetch: "fetch_routers cf en = Inl e"
  shows "fullsync (snd (periodic_sync_routers_task cf en s))"
proof (cases "raises en Process_services_sync")
  case (Some x)
  then show ?thesis
    using flag by (simp add: periodic_sync_routers_task_def call_def and_then_def)
next
  case None
  note sv = this
  show ?thesis
  proof (cases "raises en Namespaces_enter")
    case (Some x)
    then show ?thesis
      using flag sv
      by (cases x) (simp_all add: periodic_sync_routers_task_def call_def and_then_def)
  next
    case None
    show ?thesis
      unfolding periodic_reaches_fetch[OF flag sv None] fetch_failure[OF fetch]
      using flag
      by (cases "raises en Namespaces_exit")
         (auto simp: call_def split: exn.splits)
  qed
qed

lemma periodic_fetch_failed_quiet:
  assumes flag: "fullsync s" and fetch: "fetch_routers cf en = Inl e"
    and msg: "is_MessagingException e" and quiet: "\<forall>ev. raises en ev = None"
  shows "periodic_sync_routers_task cf en s =
     (Inr (), s\<lparr>trace := trace s @ [Process_services_sync, Namespaces_enter, Namespaces_exit],
               clock_reads := Suc (clock_reads s), fullsync := True\<rparr>)"
proof -
  have sv: "raises en Process_services_sync = None" and ent: "raises en Namespaces_enter = None"
    and ex: "raises en Namespaces_exit = None"
    using quiet by simp_all
  show ?thesis
    unfolding periodic_reaches_fetch[OF flag sv ent] fetch_failure[OF fetch]
    using msg by (simp add: call_def ex)
qed

lemma periodic_cleared:
  assumes flag: "fullsync s" and fetch: "fetch_routers cf en = Inr routers"
    and na: "\<forall>ev. raises en ev \<noteq> Some AbortSyncRouters"
    and sv: "raises en Process_services_sync = None"
    and ent: "raises en Namespaces_enter = None"
    and enq: "\<forall>r\<in>set routers. raises en (Keep_router (r_id r)) = None
               \<and> raises en (Queue_add (sync_update (clock en (clock_reads s)) r)) = None"
  shows "\<not> fullsync (snd (periodic_sync_routers_task cf en s))"
proof -
  define t where "t = s\<lparr>trace := trace s @ [Process_services_sync, Namespaces_enter]\<rparr>"
  have ct: "clock_reads t = clock_reads s" by (simp add: t_def)
  have q: "\<forall>e\<in>set (sync_events (clock en (clock_reads t)) routers). raises en e = None"
    using enq by (auto simp: sync_events_def ct)
  have ok: "fst (enqueue_routers en (clock en (clock_reads t)) routers
                    (t\<lparr>clock_reads := Suc (clock_reads t)\<rparr>)) = Inr ()"
    by (simp add: enqueue_routers_quiet[OF q])
  obtain r t' where F: "fetch_and_sync_all_routers cf en t = (r, t')"
    by (cases "fetch_and_sync_all_routers cf en t")
  have nf: "\<not> fullsync t'"
    using fetch_success_cleared[OF fetch ok] F by simp
  have "fst (fetch_and_sync_all_routers cf en t) \<noteq> Inl AbortSyncRouters"
    by (simp add: fetch_success[OF fetch] enqueue_routers_quiet[OF q]
        enqueue_deletes_no_abort[OF na])
  then have nr: "r \<noteq> Inl AbortSyncRouters" using F by simp
  have nx: "raises en Namespaces_exit \<noteq> Some AbortSyncRouters" using na by simp
  show ?thesis
    unfolding periodic_reaches_fetch[OF flag sv ent] t_def[symmetric] F
    using nf nr nx
    by (cases r; cases "raises en Namespaces_exit")
       (auto simp: call_def split: exn.splits)
qed

text \<open>
  C5. A full sync starts with \<open>fullsync\<close> true. If the fetch raises a messaging exception,
  \<open>fetch_and_sync_all_routers\<close> raises \<open>AbortSyncRouters\<close> and \<open>fullsync\<close> is true after
  the task, whatever else fails; when nothing else fails the task catches the signal and
  sets the flag. The flag is false after the task only if the fetch succeeded. Once the
  fetch has succeeded and the fetched routers are queued, the flag is cleared and stays
  cleared, also when queueing a \<open>DELETE_ROUTER\<close> update or leaving the namespace manager
  fails.
\<close>

theorem fullsync_stays_after_fetch_failure:
  assumes flag: "fullsync s"
  shows "(\<forall>e. fetch_routers cf en = Inl e \<and> is_MessagingException e \<longrightarrow>
            fst (fetch_and_sync_all_routers cf en s) = Inl AbortSyncRouters
          \<and> fullsync (snd (periodic_sync_routers_task cf en s))
          \<and> ((\<forall>ev. raises en ev = None) \<longrightarrow>
               periodic_sync_routers_task cf en s =
                 (Inr (), s\<lparr>trace := trace s @ [Process_services_sync, Namespaces_enter,
                                                 Namespaces_exit],
                           clock_reads := Suc (clock_reads s), fullsync := True\<rparr>)))
       \<and> (\<not> fullsync (snd (periodic_sync_routers_task cf en s)) \<longrightarrow>
            (\<exists>routers. fetch_routers cf en = Inr routers))
       \<and> (\<forall>routers. fetch_routers cf en = Inr routers
             \<and> (\<forall>ev. raises en ev \<noteq> Some AbortSyncRouters)
             \<and> raises en Process_services_sync = None
             \<and> raises en Namespaces_enter = None
             \<and> (\<forall>r\<in>set routers. raises en (Keep_router (r_id r)) = None
                   \<and> raises en (Queue_add (sync_update (clock en (clock_reads s)) r)) = None)
            \<longrightarrow> \<not> fullsync (snd (periodic_sync_routers_task cf en s)))"
proof (intro conjI allI impI)
  fix e assume a: "fetch_routers cf en = Inl e \<and> is_MessagingException e"
  then show "fst (fetch_and_sync_all_routers cf en s) = Inl AbortSyncRouters"
    by (simp add: fetch_failure)
  from a show "fullsync (snd (periodic_sync_routers_task cf en s))"
    using periodic_fetch_failed[OF flag] by blast
  assume "\<forall>ev. raises en ev = None"
  with a show "periodic_sync_routers_task cf en s =
                 (Inr (), s\<lparr>trace := trace s @ [Process_services_sync, Namespaces_enter,
                                                 Namespaces_exit],
                           clock_reads := Suc (clock_reads s), fullsync := True\<rparr>)"
    using periodic_fetch_failed_quiet[OF flag] by blast
next
  assume c: "\<not> fullsync (snd (periodic_sync_routers_task cf en s))"
  show "\<exists>routers. fetch_routers cf en = Inr routers"
  proof (cases "fetch_routers cf en")
    case (Inl e)
    from periodic_fetch_failed[OF flag Inl] c show ?thesis by simp
  next
    case (Inr routers)
    then show ?thesis by blast
  qed
next
  fix routers
  assume "fetch_routers cf en = Inr routers
             \<and> (\<forall>ev. raises en ev \<noteq> Some AbortSyncRouters)
             \<and> raises en Process_services_sync = None
             \<and> raises en Namespaces_enter = None
             \<and> (\<forall>r\<in>set routers. raises en (Keep_router (r_id r)) = None
                   \<and> raises en (Queue_add (sync_update (clock en (clock_reads s)) r)) = None)"
  then show "\<not> fullsync (snd (periodic_sync_routers_task cf en s))"
    using periodic_cleared[OF flag] by blast
qed

theorem fullsync_stays_after_fetch_failure_witness:
  "periodic_sync_routers_task conf1 (env1\<lparr>get_routers := (\<lambda>ids. Inl MessagingTimeout)\<rparr>)
       (agent1\<lparr>fullsync := True\<rparr>) =
     (Inr (), agent1\<lparr>fullsync := True, clock_reads := 1,
                trace := [Process_services_sync, Namespaces_enter, Namespaces_exit]\<rparr>)
   \<and> \<not> fullsync (snd (periodic_sync_routers_task conf1
          (env1\<lparr>raises := (\<lambda>e. if e = Queue_add (delete_update 100 ''r1'')
                                 then Some (Exception ''queue failure'') else None)\<rparr>)
          (agent1\<lparr>fullsync := True\<rparr>)))"
proof -
  let ?s = "agent1\<lparr>fullsync := True\<rparr>"
  let ?en1 = "env1\<lparr>get_routers := (\<lambda>ids. Inl MessagingTimeout)\<rparr>"
  let ?en2 = "env1\<lparr>raises := (\<lambda>e. if e = Queue_add (delete_update 100 ''r1'')
                                 then Some (Exception ''queue failure'') else None)\<rparr>"
  have flag: "fullsync ?s" by simp
  have f1: "fetch_routers conf1 ?en1 = Inl MessagingTimeout \<and> is_MessagingException MessagingTimeout"
    by (simp add: fetch_routers_def conf1_def)
  have q1: "\<forall>ev. raises ?en1 ev = None"
    by (simp add: env1_def)
  have f2: "fetch_routers conf1 ?en2 = Inr []
             \<and> (\<forall>ev. raises ?en2 ev \<noteq> Some AbortSyncRouters)
             \<and> raises ?en2 Process_services_sync = None
             \<and> raises ?en2 Namespaces_enter = None
             \<and> (\<forall>r\<in>set []. raises ?en2 (Keep_router (r_id r)) = None
                   \<and> raises ?en2 (Queue_add (sync_update (clock ?en2 (clock_reads ?s)) r)) = None)"
    by (simp add: fetch_routers_def conf1_def env1_def)
  have 1: "periodic_sync_routers_task conf1 ?en1 ?s =
             (Inr (), ?s\<lparr>trace := trace ?s @ [Process_services_sync, Namespaces_enter,
                                                Namespaces_exit],
                        clock_reads := Suc (clock_reads ?s), fullsync := True\<rparr>)"
    using fullsync_stays_after_fetch_failure[OF flag, of conf1 ?en1] f1 q1 by blast
  have 2: "\<not> fullsync (snd (periodic_sync_routers_task conf1 ?en2 ?s))"
    using fullsync_stays_after_fetch_failure[OF flag, of conf1 ?en2] f2 by blast
  from 1 have "periodic_sync_routers_task conf1 ?en1 ?s =
     (Inr (), agent1\<lparr>fullsync := True, clock_reads := 1,
                trace := [Process_services_sync, Namespaces_enter, Namespaces_exit]\<rparr>)"
    by (simp add: agent1_def)
  with 2 show ?thesis by simp
qed

end
